theory Spec2Isabelle
  imports Main "HOL-Library.Multiset"
begin

section \<open>String primitives used by the view computation\<close>

text \<open>
  A string is a list of characters, each standing for the UTF-16 code unit of its code, so
  that the strings of the model are the strings whose code units are all below 256. The
  built-in string operations that \<open>visibleSongs\<close> calls are written out for them.
  \<open>String.prototype.trim\<close> strips white space and line terminators: below 256 these are the
  code units 9 to 13, 32 and 160 (the no-break space). \<open>toLowerCase\<close> maps each code unit
  by itself: below 256 it adds 32 to \<open>A\<close>..\<open>Z\<close> (65 to 90) and to the accented capitals 192 to
  214 and 216 to 222, and leaves every other code unit as it is. \<open>includes\<close> (here
  \<open>includesStr\<close>) is the substring test and \<open>Array.prototype.join\<close> puts the separator
  between neighbours.
\<close>

definition isWhiteSpace :: "char \<Rightarrow> bool" where
  "isWhiteSpace c =
     (c = CHR '' '' \<or> c = CHR 0x09 \<or> c = CHR 0x0A \<or> c = CHR 0x0B \<or> c = CHR 0x0C \<or> c = CHR 0x0D \<or>
      c = CHR 0xA0)"

definition trim :: "string \<Rightarrow> string" where
  "trim s = rev (dropWhile isWhiteSpace (rev (dropWhile isWhiteSpace s)))"

definition lowerChar :: "char \<Rightarrow> char" where
  "lowerChar c =
     (let n = (of_char c :: nat)
      in if (65 \<le> n \<and> n \<le> 90) \<or> (192 \<le> n \<and> n \<le> 214) \<or> (216 \<le> n \<and> n \<le> 222)
         then char_of (n + 32) else c)"

definition toLowerCase :: "string \<Rightarrow> string" where
  "toLowerCase s = map lowerChar s"

definition startsWith :: "string \<Rightarrow> string \<Rightarrow> bool" where
  "startsWith s p = (take (length p) s = p)"

fun includesStr :: "string \<Rightarrow> string \<Rightarrow> bool" where
  "includesStr [] q = (q = [])"
| "includesStr (c # cs) q = (startsWith (c # cs) q \<or> includesStr cs q)"

fun join :: "string \<Rightarrow> string list \<Rightarrow> string" where
  "join sep [] = []"
| "join sep [x] = x"
| "join sep (x # y # ys) = x @ sep @ join sep (y # ys)"


section \<open>Data model\<close>

text \<open>
  A song as the seed catalogue (\<open>SEED_SONGS\<close>) has it. The field \<open>id\<close> of the source
  is \<open>songId\<close> here. \<open>visibility\<close> stays a string, compared with \<open>''public''\<close> as the
  source does.
\<close>

record song =
  songId :: int
  title :: string
  slug :: string
  duration :: string
  releaseDate :: string
  genre :: string
  moods :: "string list"
  story :: string
  lyrics :: string
  audioUrl :: string
  likes :: int
  visibility :: string

text \<open>An entry of the guestbook or of a comment thread.\<close>

record entry =
  name :: string
  message :: string
  createdAt :: string

text \<open>
  The like overlay \<open>Record<number, boolean>\<close>. A key that is absent reads as
  \<open>undefined\<close>, which is falsy.
\<close>

type_synonym overlay = "int \<rightharpoonup> bool"

definition truthy :: "bool option \<Rightarrow> bool" where
  "truthy v = (case v of None \<Rightarrow> False | Some b \<Rightarrow> b)"

text \<open>
  The two built-ins whose result depends on the host: \<open>new Date(s).getTime()\<close>, which is
  \<open>NaN\<close> (\<open>None\<close>) for a string that is not a date, and \<open>a.localeCompare(b)\<close>.
  They are parameters of the model.
\<close>

record platform =
  getTime :: "string \<Rightarrow> int option"
  localeCompare :: "string \<Rightarrow> string \<Rightarrow> int"


section \<open>Sorting with a comparator\<close>

text \<open>
  A comparator returns a number, \<open>None\<close> standing for \<open>NaN\<close>. \<open>Array.prototype.sort\<close>
  reads \<open>NaN\<close> as \<open>+0\<close> and is stable; for a consistent comparator its result is the
  one stable sorted arrangement, which the insertion sort below computes: an element is
  put before the first element of the sorted rest that it does not have to follow.
\<close>

type_synonym 'a comparator = "'a \<Rightarrow> 'a \<Rightarrow> int option"

definition notAfter :: "'a comparator \<Rightarrow> 'a \<Rightarrow> 'a \<Rightarrow> bool" where
  "notAfter cmp a b = (case cmp a b of None \<Rightarrow> True | Some v \<Rightarrow> v \<le> 0)"

fun insertSorted :: "'a comparator \<Rightarrow> 'a \<Rightarrow> 'a list \<Rightarrow> 'a list" where
  "insertSorted cmp x [] = [x]"
| "insertSorted cmp x (y # ys) =
     (if notAfter cmp x y then x # y # ys else y # insertSorted cmp x ys)"

definition sortBy :: "'a comparator \<Rightarrow> 'a list \<Rightarrow> 'a list" where
  "sortBy cmp xs = foldr (insertSorted cmp) xs []"


section \<open>Visible songs\<close>

definition byDateDesc :: "platform \<Rightarrow> song comparator" where
  "byDateDesc env a b =
     (case (getTime env (releaseDate b), getTime env (releaseDate a)) of
        (Some tb, Some ta) \<Rightarrow> Some (tb - ta)
      | _ \<Rightarrow> None)"

text \<open>
  \<open>likes\<close> is a number that holds an integer. The sum and the difference of two such numbers
  are the exact results rounded to the nearest double, ties to the even mantissa: exact
  below \<open>2 ^ 53\<close>, and above it a multiple of the distance between neighbouring doubles.
  (From \<open>2 ^ 1024\<close> on the double is an infinity, which can only arise in the difference
  and has the sign that \<open>roundDouble\<close> keeps.)
\<close>

function bitLength :: "int \<Rightarrow> nat" where
  "bitLength n = (if n \<le> 0 then 0 else Suc (bitLength (n div 2)))"
  by pat_completeness auto
termination
  by (relation "measure nat") auto

declare bitLength.simps [simp del]

definition roundDouble :: "int \<Rightarrow> int" where
  "roundDouble n =
     (let a = \<bar>n\<bar>
      in if a < 2 ^ 53 then n
         else
           (let u = 2 ^ (bitLength a - 53); k = a div u; r = a mod u;
                m = (if u < 2 * r \<or> (2 * r = u \<and> odd k) then (k + 1) * u else k * u)
            in sgn n * m))"

definition likeWeight :: "overlay \<Rightarrow> song \<Rightarrow> int" where
  "likeWeight lk s = roundDouble (likes s + (if truthy (lk (songId s)) then 1 else 0))"

definition byLikesDesc :: "overlay \<Rightarrow> song comparator" where
  "byLikesDesc lk a b = Some (roundDouble (likeWeight lk b - likeWeight lk a))"

definition byTitleAsc :: "platform \<Rightarrow> song comparator" where
  "byTitleAsc env a b = Some (localeCompare env (title a) (title b))"

definition matchesQuery :: "string \<Rightarrow> song \<Rightarrow> bool" where
  "matchesQuery q s =
     (includesStr (toLowerCase (title s)) q \<or>
      includesStr (toLowerCase (genre s)) q \<or>
      includesStr (toLowerCase (join '' '' (moods s))) q)"

definition visibilityGate :: "song list \<Rightarrow> string \<Rightarrow> bool \<Rightarrow> song list" where
  "visibilityGate catalog route unlocked =
     (if route \<noteq> ''/private'' then filter (\<lambda>s. visibility s = ''public'') catalog
      else if \<not> unlocked then []
      else catalog)"

definition textFilter :: "string \<Rightarrow> song list \<Rightarrow> song list" where
  "textFilter text base =
     (let q = toLowerCase (trim text) in if q \<noteq> [] then filter (matchesQuery q) base else base)"

definition sortSongs :: "platform \<Rightarrow> string \<Rightarrow> overlay \<Rightarrow> song list \<Rightarrow> song list" where
  "sortSongs env mode lk base =
     (if mode = ''liked'' then sortBy (byLikesDesc lk) base
      else if mode = ''az'' then sortBy (byTitleAsc env) base
      else sortBy (byDateDesc env) base)"

text \<open>
  \<open>visibleSongs\<close> of the source, as a function of the six values it is memoised on:
  gate, text filter, sort.
\<close>

definition visibleSongs ::
  "platform \<Rightarrow> song list \<Rightarrow> string \<Rightarrow> string \<Rightarrow> bool \<Rightarrow> string \<Rightarrow> overlay \<Rightarrow> song list" where
  "visibleSongs env catalog text route unlocked mode lk =
     sortSongs env mode lk (textFilter text (visibilityGate catalog route unlocked))"


section \<open>Application state\<close>

text \<open>
  The state that both variants of \<open>App\<close> keep: the route, the search text, the six
  persisted slices, the playing flag, and of the host the audio element (its source and
  its paused flag) and the notices shown with \<open>alert\<close>, latest last.
\<close>

record base_state =
  path :: string
  query :: string
  songs :: "song list"
  liked :: overlay
  guestbook :: "entry list"
  comments :: "string \<rightharpoonup> entry list"
  privateUnlocked :: bool
  sortMode :: string
  isPlaying :: bool
  audioSrc :: string
  audioPaused :: bool
  notices :: "string list"

text \<open>
  \<open>src/App.tsx\<close> adds the queue of identifiers, the cursor (\<open>null\<close> is \<open>None\<close>) and the two
  references with which \<open>MiniPlayer\<close> detects a change of track.
\<close>

record app = base_state +
  queue :: "int list"
  queueIndex :: "int option"
  prevIdRef :: "int option"
  prevUrlRef :: "string option"

definition visible :: "platform \<Rightarrow> 'a base_state_scheme \<Rightarrow> song list" where
  "visible env st =
     visibleSongs env (songs st) (query st) (path st) (privateUnlocked st) (sortMode st) (liked st)"

definition navigate :: "string \<Rightarrow> 'a base_state_scheme \<Rightarrow> 'a base_state_scheme" where
  "navigate to st = st\<lparr>path := to\<rparr>"

definition readHash :: "string \<Rightarrow> 'a base_state_scheme \<Rightarrow> 'a base_state_scheme" where
  "readHash hash st =
     (let h = (if startsWith hash ''#'' then drop 1 hash else hash)
      in st\<lparr>path := (if h = [] then ''/'' else h)\<rparr>)"

text \<open>\<open>Array.prototype.indexOf\<close> and \<open>findIndex\<close>: the first position, or \<open>-1\<close>.\<close>

fun findIndex :: "('a \<Rightarrow> bool) \<Rightarrow> 'a list \<Rightarrow> int" where
  "findIndex P [] = -1"
| "findIndex P (x # xs) =
     (if P x then 0 else (let r = findIndex P xs in if r = -1 then -1 else r + 1))"

definition indexOf :: "int list \<Rightarrow> int \<Rightarrow> int" where
  "indexOf xs v = findIndex (\<lambda>x. x = v) xs"

text \<open>
  The remainder operator \<open>%\<close> takes the sign of the dividend. \<open>stepQueue\<close> uses it with a
  positive divisor only (a zero divisor would give \<open>NaN\<close>).
\<close>

definition jsRem :: "int \<Rightarrow> int \<Rightarrow> int" where
  "jsRem a b = (if a < 0 then - ((- a) mod \<bar>b\<bar>) else a mod \<bar>b\<bar>)"

text \<open>Reading \<open>xs[i]\<close>: \<open>undefined\<close> (\<open>None\<close>) outside the array.\<close>

definition at :: "'a list \<Rightarrow> int \<Rightarrow> 'a option" where
  "at xs i = (if 0 \<le> i \<and> i < int (length xs) then Some (xs ! nat i) else None)"


section \<open>The queue-based player of \<open>src/App.tsx\<close>\<close>

definition currentSong :: "app \<Rightarrow> song option" where
  "currentSong st =
     (case queueIndex st of
        None \<Rightarrow> None
      | Some i \<Rightarrow>
          (case at (queue st) i of
             None \<Rightarrow> None
           | Some v \<Rightarrow> find (\<lambda>s. songId s = v) (songs st)))"

definition playBySong :: "platform \<Rightarrow> song \<Rightarrow> app \<Rightarrow> app" where
  "playBySong env sg st =
     (let newQueue = map songId (visible env st);
          startIndex = indexOf newQueue (songId sg)
      in if startIndex = -1 then st
         else
           (let st' = st\<lparr>queue := newQueue, queueIndex := Some startIndex, isPlaying := True\<rparr>
            in if \<not> startsWith (path st) ''/song/'' then navigate (''/song/'' @ slug sg) st'
               else st'))"

definition playAllVisible :: "platform \<Rightarrow> app \<Rightarrow> app" where
  "playAllVisible env st =
     (if visible env st = [] then st
      else
        (let ids = map songId (visible env st);
             st' = st\<lparr>queue := ids, queueIndex := Some 0, isPlaying := True\<rparr>
         in case find (\<lambda>s. songId s = hd ids) (songs st) of
              None \<Rightarrow> st'
            | Some first \<Rightarrow>
                if \<not> startsWith (path st) ''/song/'' then navigate (''/song/'' @ slug first) st'
                else st'))"

definition openSongDetail :: "song \<Rightarrow> app \<Rightarrow> app" where
  "openSongDetail sg st = navigate (''/song/'' @ slug sg) st"

definition updateSong :: "int \<Rightarrow> string \<Rightarrow> 'a base_state_scheme \<Rightarrow> 'a base_state_scheme" where
  "updateSong i url st =
     st\<lparr>songs := map (\<lambda>s. if songId s = i then s\<lparr>audioUrl := url\<rparr> else s) (songs st)\<rparr>"

definition stepQueue :: "int \<Rightarrow> app \<Rightarrow> app" where
  "stepQueue dir st =
     (case queueIndex st of
        None \<Rightarrow> st
      | Some i \<Rightarrow>
          if queue st = [] then st
          else st\<lparr>queueIndex :=
                 Some (jsRem (i + dir + int (length (queue st))) (int (length (queue st))))\<rparr>)"

definition stopPlayback :: "app \<Rightarrow> app" where
  "stopPlayback st = st\<lparr>isPlaying := False\<rparr>"

text \<open>
  \<open>MiniPlayer\<close>. Its effect runs after a render in which the identifier or the audio source
  of the current song changed; run after every event it does nothing in the other renders,
  because it compares both with the two references first. \<open>currentId\<close> is
  \<open>currentSong?.id ?? null\<close> and \<open>currentUrl\<close> is \<open>currentSong?.audioUrl ?? ""\<close>, so
  that \<open>!currentSong?.audioUrl\<close> is \<open>currentUrl st = []\<close>. \<open>audio.play()\<close> reports its
  outcome later, through \<open>playSettled\<close>. Of the audio element only the source and the
  paused flag are kept; the position that \<open>stop\<close> resets is not.
\<close>

definition alert :: "string \<Rightarrow> 'a base_state_scheme \<Rightarrow> 'a base_state_scheme" where
  "alert msg st = st\<lparr>notices := notices st @ [msg]\<rparr>"

definition noAudioNotice :: string where
  "noAudioNotice =
     ''No audio attached for this song yet. Open the song and add an MP3/WAV URL or upload a file.''"

definition currentId :: "app \<Rightarrow> int option" where
  "currentId st = map_option songId (currentSong st)"

definition currentUrl :: "app \<Rightarrow> string" where
  "currentUrl st = (case currentSong st of None \<Rightarrow> [] | Some s \<Rightarrow> audioUrl s)"

definition trackChanged :: "app \<Rightarrow> bool" where
  "trackChanged st = (currentId st \<noteq> prevIdRef st \<or> Some (currentUrl st) \<noteq> prevUrlRef st)"

definition miniPlayerEffect :: "app \<Rightarrow> app" where
  "miniPlayerEffect st =
     (if trackChanged st then
        (let url = currentUrl st;
             st' = st\<lparr>prevIdRef := currentId st, prevUrlRef := Some url, audioSrc := url\<rparr>
         in if url \<noteq> [] then st'\<lparr>audioPaused := False\<rparr>
            else st'\<lparr>isPlaying := False\<rparr>)
      else st)"

definition playSettled :: "bool \<Rightarrow> 'a base_state_scheme \<Rightarrow> 'a base_state_scheme" where
  "playSettled ok st = st\<lparr>isPlaying := ok\<rparr>"

definition togglePlay :: "app \<Rightarrow> app" where
  "togglePlay st =
     (if currentUrl st = [] then alert noAudioNotice st
      else if audioPaused st then st\<lparr>audioPaused := False, isPlaying := True\<rparr>
      else st\<lparr>audioPaused := True, isPlaying := False\<rparr>)"

definition stop :: "app \<Rightarrow> app" where
  "stop st = stopPlayback (st\<lparr>audioPaused := True\<rparr>)"

text \<open>
  Everything that can happen to the running application: the state setters that \<open>App\<close>
  hands to its pages, the location change, and the handlers above. The two step buttons
  and the end of a track are the only callers of \<open>stepQueue\<close>.
\<close>

datatype event =
    HashChange string
  | Navigate string
  | SetQuery string
  | SetSongs "song list"
  | SetLiked overlay
  | ToggleLike int
  | SetGuestbook "entry list"
  | SetComments "string \<rightharpoonup> entry list"
  | SetPrivateUnlocked bool
  | SetSortMode string
  | UpdateSong int string
  | OpenSongDetail song
  | PlayBySong song
  | PlayAllVisible
  | StepPrev
  | StepNext
  | Stop
  | TogglePlay
  | PlaySettled bool

fun handle :: "platform \<Rightarrow> event \<Rightarrow> app \<Rightarrow> app" where
  "handle env (HashChange h) st = readHash h st"
| "handle env (Navigate to) st = navigate to st"
| "handle env (SetQuery q) st = st\<lparr>query := q\<rparr>"
| "handle env (SetSongs xs) st = st\<lparr>songs := xs\<rparr>"
| "handle env (SetLiked lk) st = st\<lparr>liked := lk\<rparr>"
| "handle env (ToggleLike i) st = st\<lparr>liked := (liked st)(i \<mapsto> \<not> truthy (liked st i))\<rparr>"
| "handle env (SetGuestbook g) st = st\<lparr>guestbook := g\<rparr>"
| "handle env (SetComments c) st = st\<lparr>comments := c\<rparr>"
| "handle env (SetPrivateUnlocked b) st = st\<lparr>privateUnlocked := b\<rparr>"
| "handle env (SetSortMode m) st = st\<lparr>sortMode := m\<rparr>"
| "handle env (UpdateSong i url) st = updateSong i url st"
| "handle env (OpenSongDetail sg) st = openSongDetail sg st"
| "handle env (PlayBySong sg) st = playBySong env sg st"
| "handle env PlayAllVisible st = playAllVisible env st"
| "handle env StepPrev st = stepQueue (-1) st"
| "handle env StepNext st = stepQueue 1 st"
| "handle env Stop st = stop st"
| "handle env TogglePlay st = togglePlay st"
| "handle env (PlaySettled ok) st = playSettled ok st"

text \<open>One event: the handler, then the render and its effect.\<close>

definition react :: "platform \<Rightarrow> event \<Rightarrow> app \<Rightarrow> app" where
  "react env ev st = miniPlayerEffect (handle env ev st)"

definition run :: "platform \<Rightarrow> event list \<Rightarrow> app \<Rightarrow> app" where
  "run env evs st = fold (react env) evs st"


section \<open>The index-based player of the second variant\<close>

text \<open>
  The unnamed source file keeps no queue: its player state is \<open>activeIndex\<close>, an index
  into the visible list, and \<open>MiniPlayer\<close> gets that list itself as \<open>songs\<close>. Its
  \<open>visibleSongs\<close> is the one of \<open>src/App.tsx\<close>, word for word.
\<close>

record live_app = base_state +
  activeIndex :: "int option"

definition playBySongLive :: "platform \<Rightarrow> song \<Rightarrow> live_app \<Rightarrow> live_app" where
  "playBySongLive env sg st =
     (let idx = findIndex (\<lambda>s. songId s = songId sg) (visible env st)
      in if idx \<noteq> -1 then
           (let st' = st\<lparr>activeIndex := Some idx, isPlaying := True\<rparr>
            in if \<not> startsWith (path st) ''/song/'' then navigate (''/song/'' @ slug sg) st'
               else st')
         else st)"

text \<open>The song the player shows and loads: \<open>hasTrack ? songs[activeIndex] : null\<close>.\<close>

definition trackLive :: "platform \<Rightarrow> live_app \<Rightarrow> song option" where
  "trackLive env st =
     (case activeIndex st of None \<Rightarrow> None | Some i \<Rightarrow> at (visible env st) i)"

definition stepLive :: "platform \<Rightarrow> int \<Rightarrow> live_app \<Rightarrow> live_app" where
  "stepLive env dir st =
     (if visible env st = [] then st
      else case activeIndex st of
             None \<Rightarrow> st
           | Some i \<Rightarrow>
               st\<lparr>activeIndex :=
                    Some (jsRem (i + dir + int (length (visible env st)))
                                (int (length (visible env st))))\<rparr>)"

definition miniPlayerEffectLive :: "platform \<Rightarrow> live_app \<Rightarrow> live_app" where
  "miniPlayerEffectLive env st =
     (case trackLive env st of
        None \<Rightarrow> st
      | Some s \<Rightarrow>
          (let url = audioUrl s; st' = st\<lparr>audioSrc := url\<rparr>
           in if url \<noteq> [] then st'\<lparr>audioPaused := False\<rparr> else st'\<lparr>isPlaying := False\<rparr>))"


section \<open>Bulk import\<close>

text \<open>
  What \<open>JSON.parse\<close> returns. Numbers are kept as integers: the import only asks whether
  a value is falsy and what \<open>typeof\<close> says of it.
\<close>

datatype json =
    JNull
  | JBool bool
  | JNum int
  | JStr string
  | JArr "json list"
  | JObj "(string \<times> json) list"

text \<open>
  Reading a named property of a parsed value: of an object the member of that name (the
  last one, if the text repeats the name), \<open>undefined\<close> otherwise. The names read by the
  import are not properties of an array.
\<close>

definition getProp :: "json \<Rightarrow> string \<Rightarrow> json option" where
  "getProp v k = (case v of JObj kvs \<Rightarrow> map_of (rev kvs) k | _ \<Rightarrow> None)"

definition jsTruthy :: "json \<Rightarrow> bool" where
  "jsTruthy v =
     (case v of JNull \<Rightarrow> False | JBool b \<Rightarrow> b | JNum n \<Rightarrow> n \<noteq> 0 | JStr s \<Rightarrow> s \<noteq> [] | _ \<Rightarrow> True)"

definition typeofObject :: "json \<Rightarrow> bool" where
  "typeofObject v = (case v of JNull \<Rightarrow> True | JArr xs \<Rightarrow> True | JObj kvs \<Rightarrow> True | _ \<Rightarrow> False)"

definition isArray :: "json option \<Rightarrow> bool" where
  "isArray v = (case v of Some (JArr xs) \<Rightarrow> True | _ \<Rightarrow> False)"

text \<open>
  The six slices as \<open>DataPage\<close> sees them, behind their setters, and its status line. The
  import stores what the file held after a test of its type only, so a slice is a parsed
  value here.
\<close>

record data_page =
  songsSlice :: json
  likedSlice :: json
  commentsSlice :: json
  guestbookSlice :: json
  privateUnlockedSlice :: bool
  sortModeSlice :: string
  status :: string

text \<open>The chosen file: its text parses, or reading or parsing it throws.\<close>

datatype file_content = Unparsable | Parsed json

definition importSongs :: "json \<Rightarrow> data_page \<Rightarrow> data_page" where
  "importSongs p st =
     (if isArray (getProp p ''songs'') then st\<lparr>songsSlice := the (getProp p ''songs'')\<rparr> else st)"

definition importLiked :: "json \<Rightarrow> data_page \<Rightarrow> data_page" where
  "importLiked p st =
     (case getProp p ''liked'' of
        None \<Rightarrow> st
      | Some v \<Rightarrow> if jsTruthy v \<and> typeofObject v then st\<lparr>likedSlice := v\<rparr> else st)"

definition importComments :: "json \<Rightarrow> data_page \<Rightarrow> data_page" where
  "importComments p st =
     (case getProp p ''comments'' of
        None \<Rightarrow> st
      | Some v \<Rightarrow> if jsTruthy v \<and> typeofObject v then st\<lparr>commentsSlice := v\<rparr> else st)"

definition importGuestbook :: "json \<Rightarrow> data_page \<Rightarrow> data_page" where
  "importGuestbook p st =
     (if isArray (getProp p ''guestbook'') then st\<lparr>guestbookSlice := the (getProp p ''guestbook'')\<rparr>
      else st)"

definition importPrivateUnlocked :: "json \<Rightarrow> data_page \<Rightarrow> data_page" where
  "importPrivateUnlocked p st =
     (case getProp p ''privateUnlocked'' of
        Some (JBool b) \<Rightarrow> st\<lparr>privateUnlockedSlice := b\<rparr>
      | _ \<Rightarrow> st)"

definition importSortMode :: "json \<Rightarrow> data_page \<Rightarrow> data_page" where
  "importSortMode p st =
     (case getProp p ''sortMode'' of Some (JStr m) \<Rightarrow> st\<lparr>sortModeSlice := m\<rparr> | _ \<Rightarrow> st)"

definition importFailed :: string where
  "importFailed = ''Import failed: invalid JSON.''"

definition importComplete :: string where
  "importComplete = ''Import complete.''"

text \<open>
  \<open>onImportFile\<close>: nothing happens without a file; a throw, from the parser or from the
  test of the top level, is caught and reported; otherwise each field is applied in turn.
\<close>

definition onImportFile :: "file_content option \<Rightarrow> data_page \<Rightarrow> data_page" where
  "onImportFile chosen st =
     (case chosen of
        None \<Rightarrow> st
      | Some Unparsable \<Rightarrow> st\<lparr>status := importFailed\<rparr>
      | Some (Parsed p) \<Rightarrow>
          if \<not> jsTruthy p \<or> \<not> typeofObject p then st\<lparr>status := importFailed\<rparr>
          else
            (importSortMode p (importPrivateUnlocked p (importGuestbook p
               (importComments p (importLiked p (importSongs p st))))))\<lparr>status := importComplete\<rparr>)"

text \<open>The slices of a page, without its status line.\<close>

definition slices :: "data_page \<Rightarrow> json \<times> json \<times> json \<times> json \<times> bool \<times> string" where
  "slices st =
     (songsSlice st, likedSlice st, commentsSlice st, guestbookSlice st,
      privateUnlockedSlice st, sortModeSlice st)"


section \<open>A small catalogue and a host to run the model on\<close>

text \<open>
  The three songs of the seed catalogue, with their identifiers, titles, slugs, release
  dates, genres, moods, likes and visibility; duration, story and lyrics are left empty.
  The host parses the three release dates to their UTC timestamps in milliseconds and
  compares titles by character code.
\<close>

definition mkSong ::
  "int \<Rightarrow> string \<Rightarrow> string \<Rightarrow> string \<Rightarrow> string \<Rightarrow> string list \<Rightarrow> string \<Rightarrow> int \<Rightarrow> string \<Rightarrow> song" where
  "mkSong i t sl d g ms url lk vis =
     \<lparr>songId = i, title = t, slug = sl, duration = [], releaseDate = d, genre = g, moods = ms,
      story = [], lyrics = [], audioUrl = url, likes = lk, visibility = vis\<rparr>"

definition beGood :: song where
  "beGood = mkSong 1 ''Be Good'' ''be-good'' ''2025-07-15'' ''Southern Rock''
     [''uplifting'', ''nostalgic''] [] 24 ''public''"

definition diminished :: song where
  "diminished = mkSong 2 ''Diminished, Erased, and Ignored'' ''diminished-erased-ignored''
     ''2025-08-10'' ''Blues Rock'' [''reflective'', ''defiant''] [] 31 ''public''"

definition sunset :: song where
  "sunset = mkSong 3 ''Sunset Heartbreak'' ''sunset-heartbreak'' ''2025-06-14''
     ''Country Ballad'' [''somber'', ''tender''] [] 17 ''private''"

definition demoSongs :: "song list" where
  "demoSongs = [beGood, diminished, sunset]"

definition demoGetTime :: "string \<Rightarrow> int option" where
  "demoGetTime d =
     (if d = ''2025-06-14'' then Some 1749859200000
      else if d = ''2025-07-15'' then Some 1752537600000
      else if d = ''2025-08-10'' then Some 1754784000000
      else None)"

fun codeUnitCompare :: "string \<Rightarrow> string \<Rightarrow> int" where
  "codeUnitCompare [] [] = 0"
| "codeUnitCompare [] (y # ys) = -1"
| "codeUnitCompare (x # xs) [] = 1"
| "codeUnitCompare (x # xs) (y # ys) =
     (if (of_char x :: nat) < of_char y then -1
      else if (of_char y :: nat) < of_char x then 1
      else codeUnitCompare xs ys)"

definition demoPlatform :: platform where
  "demoPlatform = \<lparr>getTime = demoGetTime, localeCompare = codeUnitCompare\<rparr>"

text \<open>The state of \<open>App\<close> before its first render, for a stored catalogue.\<close>

definition initialApp :: "song list \<Rightarrow> app" where
  "initialApp catalog =
     \<lparr>path = ''/'', query = [], songs = catalog, liked = Map.empty, guestbook = [],
      comments = Map.empty, privateUnlocked = False, sortMode = ''newest'', isPlaying = False,
      audioSrc = [], audioPaused = True, notices = [],
      queue = [], queueIndex = None, prevIdRef = None, prevUrlRef = None\<rparr>"

definition initialLive :: "song list \<Rightarrow> live_app" where
  "initialLive catalog =
     \<lparr>path = ''/'', query = [], songs = catalog, liked = Map.empty, guestbook = [],
      comments = Map.empty, privateUnlocked = False, sortMode = ''newest'', isPlaying = False,
      audioSrc = [], audioPaused = True, notices = [],
      activeIndex = None\<rparr>"

definition demoPage :: data_page where
  "demoPage =
     \<lparr>songsSlice = JArr [], likedSlice = JObj [], commentsSlice = JObj [],
      guestbookSlice = JArr [], privateUnlockedSlice = False, sortModeSlice = ''newest'',
      status = []\<rparr>"


section \<open>Predicates of the specification\<close>

text \<open>The cursor is absent or a valid index of the queue.\<close>

definition cursorInBounds :: "app \<Rightarrow> bool" where
  "cursorInBounds st =
     (case queueIndex st of None \<Rightarrow> True | Some i \<Rightarrow> 0 \<le> i \<and> i < int (length (queue st)))"

text \<open>The events that start playback or step the queue.\<close>

fun isPlaybackEvent :: "event \<Rightarrow> bool" where
  "isPlaybackEvent (PlayBySong sg) = True"
| "isPlaybackEvent PlayAllVisible = True"
| "isPlaybackEvent StepPrev = True"
| "isPlaybackEvent StepNext = True"
| "isPlaybackEvent ev = False"


text \<open>The seed catalogue with the two demonstration files attached to its public songs.\<close>

definition demoAudioSongs :: "song list" where
  "demoAudioSongs =
     [beGood\<lparr>audioUrl := ''/be-good-demo.mp3''\<rparr>,
      diminished\<lparr>audioUrl := ''/diminished-demo.mp3''\<rparr>,
      sunset]"


text \<open>
  The text filter in the words of the specification, written without the functions of the
  model. The white space that trimming removes is the set of its code units. A string is
  the trimmed form of a text when the text is that string between two runs of white space
  and the string neither begins nor ends with white space. Two characters are the same
  letter when they are equal or one is the capital of the other, the small letter being
  32 above its capital; a string is the folded form of another when it matches it letter by
  letter and holds no capital. The moods joined by spaces are the first mood followed by a
  space and a mood for each of the others.
\<close>

definition whiteSpaceCodes :: "nat set" where
  "whiteSpaceCodes = {9, 10, 11, 12, 13, 32, 160}"

definition trimmedOf :: "string \<Rightarrow> string \<Rightarrow> bool" where
  "trimmedOf text t =
     (\<exists>pre suf. text = pre @ t @ suf \<and>
        (\<forall>c\<in>set pre. of_char c \<in> whiteSpaceCodes) \<and>
        (\<forall>c\<in>set suf. of_char c \<in> whiteSpaceCodes) \<and>
        (t \<noteq> [] \<longrightarrow> of_char (hd t) \<notin> whiteSpaceCodes \<and> of_char (last t) \<notin> whiteSpaceCodes))"

definition capitalCode :: "nat \<Rightarrow> bool" where
  "capitalCode n = (n \<in> {65..90} \<union> {192..214} \<union> {216..222})"

definition sameLetter :: "char \<Rightarrow> char \<Rightarrow> bool" where
  "sameLetter c d =
     (c = d \<or>
      (capitalCode (of_char c) \<and> (of_char d :: nat) = of_char c + 32) \<or>
      (capitalCode (of_char d) \<and> (of_char c :: nat) = of_char d + 32))"

definition foldedOf :: "string \<Rightarrow> string \<Rightarrow> bool" where
  "foldedOf t q = (list_all2 sameLetter t q \<and> (\<forall>c\<in>set q. \<not> capitalCode (of_char c)))"

definition spaceJoined :: "string list \<Rightarrow> string" where
  "spaceJoined ms =
     (case ms of [] \<Rightarrow> [] | m # rest \<Rightarrow> m @ concat (map (\<lambda>x. CHR '' '' # x) rest))"

text \<open>
  One string contains another as a substring when case is ignored: some stretch of it
  matches the other letter by letter.
\<close>

definition containsIgnoringCase :: "string \<Rightarrow> string \<Rightarrow> bool" where
  "containsIgnoringCase hay needle =
     (\<exists>pre mid suf. hay = pre @ mid @ suf \<and> list_all2 sameLetter mid needle)"

text \<open>The songs that a search text selects.\<close>

definition matchesText :: "string \<Rightarrow> song \<Rightarrow> bool" where
  "matchesText needle s =
     (containsIgnoringCase (title s) needle \<or>
      containsIgnoringCase (genre s) needle \<or>
      containsIgnoringCase (spaceJoined (moods s)) needle)"










definition demoLiked :: overlay where
  "demoLiked = [2 \<mapsto> True]"

text \<open>
  A search text for the two moods of the first song: capitals, a no-break space and a
  space in front, a tab behind.
\<close>

definition demoSearch :: string where
  "demoSearch = CHR 0xA0 # '' UPLIFTING Nostalgic'' @ [CHR 0x09]"


section \<open>Array helpers\<close>

lemma findIndex_range:
  "findIndex P xs = -1 \<or> (0 \<le> findIndex P xs \<and> findIndex P xs < int (length xs))"
  by (induction xs) (auto simp: Let_def)

lemma findIndex_none: "(findIndex P xs = -1) = (\<forall>x\<in>set xs. \<not> P x)"
proof (induction xs)
  case Nil then show ?case by simp
next
  case (Cons x xs)
  have "findIndex P xs + 1 \<noteq> -1" using findIndex_range[of P xs] by auto
  with Cons show ?case by (auto simp: Let_def)
qed

lemma findIndex_first:
  "findIndex P xs \<noteq> -1 \<Longrightarrow>
     P (xs ! nat (findIndex P xs)) \<and> (\<forall>j < nat (findIndex P xs). \<not> P (xs ! j))"
proof (induction xs)
  case Nil then show ?case by simp
next
  case (Cons x xs)
  show ?case
  proof (cases "P x")
    case True then show ?thesis by simp
  next
    case False
    with Cons.prems have ne: "findIndex P xs \<noteq> -1" by (auto simp: Let_def split: if_splits)
    have r: "0 \<le> findIndex P xs" using findIndex_range[of P xs] ne by auto
    have eq: "findIndex P (x # xs) = findIndex P xs + 1" using False ne by (simp add: Let_def)
    have n: "nat (findIndex P xs + 1) = Suc (nat (findIndex P xs))" using r by simp
    show ?thesis using Cons.IH[OF ne] False unfolding eq n
      by (auto simp: nth_Cons split: nat.splits)
  qed
qed

lemma jsRem_nonneg: "0 \<le> a \<Longrightarrow> 0 < b \<Longrightarrow> jsRem a b = a mod b"
  by (simp add: jsRem_def)

section \<open>The demonstration state\<close>

lemma visible_demo_home:
  "visible demoPlatform (initialApp demoSongs) = [diminished, beGood]"
  by (simp add: visible_def visibleSongs_def sortSongs_def textFilter_def visibilityGate_def
      initialApp_def demoSongs_def beGood_def diminished_def sunset_def mkSong_def trim_def
      toLowerCase_def sortBy_def notAfter_def byDateDesc_def demoPlatform_def demoGetTime_def)

lemma demo_ids: "songId beGood = 1" "songId diminished = 2" "songId sunset = 3"
  by (simp_all add: beGood_def diminished_def sunset_def mkSong_def)

lemma demo_slugs: "slug beGood = ''be-good''" "slug diminished = ''diminished-erased-ignored''"
  by (simp_all add: beGood_def diminished_def mkSong_def)


section \<open>Stepping the queue\<close>

text \<open>
  C3. \<open>stepQueue\<close> changes nothing when the queue is empty or the cursor is absent.
  Otherwise, for a cursor inside the queue and a direction of plus or minus one (the only
  directions the player passes), the new cursor is cursor plus direction modulo the length
  of the queue, the queue is the same, and the new cursor is inside the queue again.
\<close>

theorem stepQueue_spec:
  "(queue st = [] \<or> queueIndex st = None \<longrightarrow> stepQueue dir st = st) \<and>
   (queue st \<noteq> [] \<and> queueIndex st = Some i \<and> 0 \<le> i \<and> i < int (length (queue st)) \<and>
    (dir = 1 \<or> dir = -1) \<longrightarrow>
      queueIndex (stepQueue dir st) = Some ((i + dir) mod int (length (queue st))) \<and>
      queue (stepQueue dir st) = queue st \<and>
      0 \<le> (i + dir) mod int (length (queue st)) \<and>
      (i + dir) mod int (length (queue st)) < int (length (queue st)))"
proof (intro conjI impI)
  assume "queue st = [] \<or> queueIndex st = None"
  then show "stepQueue dir st = st" by (auto simp: stepQueue_def split: option.splits)
next
  assume a: "queue st \<noteq> [] \<and> queueIndex st = Some i \<and> 0 \<le> i \<and>
             i < int (length (queue st)) \<and> (dir = 1 \<or> dir = -1)"
  then have pos: "0 < int (length (queue st))" by simp
  from a have nn: "0 \<le> i + dir + int (length (queue st))" by auto
  have "jsRem (i + dir + int (length (queue st))) (int (length (queue st)))
          = (i + dir) mod int (length (queue st))"
    using jsRem_nonneg[OF nn pos] by simp
  with a show "queueIndex (stepQueue dir st) = Some ((i + dir) mod int (length (queue st)))"
    by (simp add: stepQueue_def)
  from a show "queue (stepQueue dir st) = queue st" by (simp add: stepQueue_def)
  from pos show "0 \<le> (i + dir) mod int (length (queue st))" by simp
  from pos show "(i + dir) mod int (length (queue st)) < int (length (queue st))" by simp
qed

text \<open>
  The wrap-around of the specification: from the last of three a step forward gives the
  first, from the first a step back gives the last; and a step without a queue is nothing.
\<close>

theorem stepQueue_spec_witness:
  "queueIndex (stepQueue 1 ((initialApp demoSongs)\<lparr>queue := [2, 1, 3], queueIndex := Some 2\<rparr>))
     = Some 0 \<and>
   queueIndex (stepQueue (-1) ((initialApp demoSongs)\<lparr>queue := [2, 1, 3], queueIndex := Some 0\<rparr>))
     = Some 2 \<and>
   queue (stepQueue 1 ((initialApp demoSongs)\<lparr>queue := [2, 1, 3], queueIndex := Some 2\<rparr>))
     = [2, 1, 3] \<and>
   stepQueue 1 (initialApp demoSongs) = initialApp demoSongs"
  using stepQueue_spec[of "(initialApp demoSongs)\<lparr>queue := [2, 1, 3], queueIndex := Some 2\<rparr>" 1 2]
        stepQueue_spec[of "(initialApp demoSongs)\<lparr>queue := [2, 1, 3], queueIndex := Some 0\<rparr>" "-1" 0]
        stepQueue_spec[of "initialApp demoSongs" 1 0]
  by (simp add: initialApp_def)


section \<open>Starting playback\<close>

lemma playBySong_absent:
  assumes "songId sg \<notin> set (map songId (visible env st))"
  shows "playBySong env sg st = st"
proof -
  from assms have "\<forall>x\<in>set (map songId (visible env st)). x \<noteq> songId sg" by blast
  then have "indexOf (map songId (visible env st)) (songId sg) = -1"
    unfolding indexOf_def findIndex_none .
  then show ?thesis by (simp add: playBySong_def Let_def)
qed

lemma playBySong_queue_fields:
  assumes "songId sg \<in> set (map songId (visible env st))"
  shows "queue (playBySong env sg st) = map songId (visible env st)"
    and "queueIndex (playBySong env sg st)
           = Some (indexOf (map songId (visible env st)) (songId sg))"
    and "isPlaying (playBySong env sg st)"
proof -
  have ne: "indexOf (map songId (visible env st)) (songId sg) \<noteq> -1"
    using assms by (auto simp: indexOf_def findIndex_none)
  show "queue (playBySong env sg st) = map songId (visible env st)"
    using ne by (simp add: playBySong_def Let_def navigate_def)
  show "queueIndex (playBySong env sg st)
          = Some (indexOf (map songId (visible env st)) (songId sg))"
    using ne by (simp add: playBySong_def Let_def navigate_def)
  show "isPlaying (playBySong env sg st)"
    using ne by (simp add: playBySong_def Let_def navigate_def)
qed

lemma indexOf_first:
  assumes "v \<in> set xs"
  shows "0 \<le> indexOf xs v \<and> indexOf xs v < int (length xs) \<and> xs ! nat (indexOf xs v) = v \<and>
         (\<forall>j < nat (indexOf xs v). xs ! j \<noteq> v)"
proof -
  have ne: "findIndex (\<lambda>x. x = v) xs \<noteq> -1" using assms by (auto simp: findIndex_none)
  from findIndex_first[OF ne] findIndex_range[of "\<lambda>x. x = v" xs] ne
  show ?thesis by (auto simp: indexOf_def)
qed

text \<open>
  C4. \<open>playBySong\<close> looks the song up in the visible list, not in the catalogue. A song
  whose identifier is not in the visible list leaves the whole state as it is. For a song
  whose identifier is there, the queue becomes the identifiers of the visible list in its
  order, the cursor the first position of the song's identifier in it, and the playing
  flag true.
\<close>

theorem playBySong_spec:
  "(songId sg \<notin> set (map songId (visible env st)) \<longrightarrow> playBySong env sg st = st) \<and>
   (songId sg \<in> set (map songId (visible env st)) \<longrightarrow>
      queue (playBySong env sg st) = map songId (visible env st) \<and>
      (\<exists>i. queueIndex (playBySong env sg st) = Some (int i) \<and>
           i < length (visible env st) \<and>
           songId (visible env st ! i) = songId sg \<and>
           (\<forall>j < i. songId (visible env st ! j) \<noteq> songId sg)) \<and>
      isPlaying (playBySong env sg st))"
proof (intro conjI impI)
  assume "songId sg \<notin> set (map songId (visible env st))"
  then show "playBySong env sg st = st" by (rule playBySong_absent)
next
  assume p: "songId sg \<in> set (map songId (visible env st))"
  show "queue (playBySong env sg st) = map songId (visible env st)"
    by (rule playBySong_queue_fields(1)[OF p])
  show "isPlaying (playBySong env sg st)" by (rule playBySong_queue_fields(3)[OF p])
  let ?ids = "map songId (visible env st)"
  let ?k = "indexOf ?ids (songId sg)"
  note f = indexOf_first[OF p]
  have lt: "nat ?k < length (visible env st)" using f by (simp add: nat_less_iff)
  have "queueIndex (playBySong env sg st) = Some (int (nat ?k))"
    using playBySong_queue_fields(2)[OF p] f by simp
  moreover have "songId (visible env st ! nat ?k) = songId sg"
    using f nth_map[OF lt, of songId] by simp
  moreover have "\<forall>j < nat ?k. songId (visible env st ! j) \<noteq> songId sg"
  proof (intro allI impI)
    fix j assume j: "j < nat ?k"
    then have "?ids ! j \<noteq> songId sg" using f by blast
    moreover have "j < length (visible env st)" using j lt by simp
    ultimately show "songId (visible env st ! j) \<noteq> songId sg"
      using nth_map[of j "visible env st" songId] by simp
  qed
  ultimately show "\<exists>i. queueIndex (playBySong env sg st) = Some (int i) \<and>
           i < length (visible env st) \<and>
           songId (visible env st ! i) = songId sg \<and>
           (\<forall>j < i. songId (visible env st ! j) \<noteq> songId sg)"
    using lt by blast
qed

text \<open>
  On the home route the private song of the catalogue is not visible, and playing it does
  nothing; playing the second of the two visible songs gives the queue of both and the
  cursor one.
\<close>

theorem playBySong_spec_witness:
  "playBySong demoPlatform sunset (initialApp demoSongs) = initialApp demoSongs \<and>
   queue (playBySong demoPlatform beGood (initialApp demoSongs)) = [2, 1] \<and>
   queueIndex (playBySong demoPlatform beGood (initialApp demoSongs)) = Some 1 \<and>
   isPlaying (playBySong demoPlatform beGood (initialApp demoSongs))"
proof -
  have a: "songId sunset \<notin> set (map songId (visible demoPlatform (initialApp demoSongs)))"
    by (simp add: visible_demo_home demo_ids)
  have b: "songId beGood \<in> set (map songId (visible demoPlatform (initialApp demoSongs)))"
    by (simp add: visible_demo_home demo_ids)
  from playBySong_spec[of sunset demoPlatform "initialApp demoSongs"] a
  have 1: "playBySong demoPlatform sunset (initialApp demoSongs) = initialApp demoSongs"
    by blast
  from playBySong_spec[of beGood demoPlatform "initialApp demoSongs"] b
  obtain i where
    q: "queue (playBySong demoPlatform beGood (initialApp demoSongs))
          = map songId (visible demoPlatform (initialApp demoSongs))" and
    c: "queueIndex (playBySong demoPlatform beGood (initialApp demoSongs)) = Some (int i)" and
    i: "i < length (visible demoPlatform (initialApp demoSongs))"
       "songId (visible demoPlatform (initialApp demoSongs) ! i) = songId beGood" and
    p: "isPlaying (playBySong demoPlatform beGood (initialApp demoSongs))"
    by blast
  from i have "i = 1"
    by (cases i) (simp_all add: visible_demo_home demo_ids)
  with 1 q c p show ?thesis by (simp add: visible_demo_home demo_ids)
qed

lemma visible_demo_locked:
  "visible demoPlatform ((initialApp demoSongs)\<lparr>path := ''/private''\<rparr>) = []"
  by (simp add: visible_def visibleSongs_def sortSongs_def textFilter_def visibilityGate_def
      initialApp_def trim_def toLowerCase_def sortBy_def)

text \<open>
  C9. \<open>playAllVisible\<close> leaves the whole state as it is when the visible list is empty.
  For a visible list that is not empty, the queue becomes the identifiers of the visible
  list in its order, the cursor zero and the playing flag true.
\<close>

theorem playAllVisible_spec:
  "(visible env st = [] \<longrightarrow> playAllVisible env st = st) \<and>
   (visible env st \<noteq> [] \<longrightarrow>
      queue (playAllVisible env st) = map songId (visible env st) \<and>
      queueIndex (playAllVisible env st) = Some 0 \<and>
      isPlaying (playAllVisible env st))"
  by (simp add: playAllVisible_def Let_def navigate_def split: option.splits)

text \<open>
  On the locked private route nothing is visible and the call changes nothing; on the home
  route it queues the two public songs, newest first, with the cursor on the first.
\<close>

theorem playAllVisible_spec_witness:
  "playAllVisible demoPlatform ((initialApp demoSongs)\<lparr>path := ''/private''\<rparr>)
     = (initialApp demoSongs)\<lparr>path := ''/private''\<rparr> \<and>
   queue (playAllVisible demoPlatform (initialApp demoSongs)) = [2, 1] \<and>
   queueIndex (playAllVisible demoPlatform (initialApp demoSongs)) = Some 0 \<and>
   isPlaying (playAllVisible demoPlatform (initialApp demoSongs))"
  using playAllVisible_spec[of demoPlatform "(initialApp demoSongs)\<lparr>path := ''/private''\<rparr>"]
        playAllVisible_spec[of demoPlatform "initialApp demoSongs"]
  by (simp add: visible_demo_locked visible_demo_home demo_ids)


section \<open>The queue between two playback events\<close>

lemma miniPlayerEffect_queue:
  "queue (miniPlayerEffect st) = queue st \<and> queueIndex (miniPlayerEffect st) = queueIndex st"
  by (simp add: miniPlayerEffect_def Let_def)

lemma handle_queue:
  "\<not> isPlaybackEvent ev \<Longrightarrow>
     queue (handle env ev st) = queue st \<and> queueIndex (handle env ev st) = queueIndex st"
  by (cases ev)
     (simp_all add: readHash_def navigate_def updateSong_def openSongDetail_def stop_def
        stopPlayback_def togglePlay_def alert_def playSettled_def Let_def)

lemma react_queue:
  "\<not> isPlaybackEvent ev \<Longrightarrow>
     queue (react env ev st) = queue st \<and> queueIndex (react env ev st) = queueIndex st"
  by (simp add: react_def miniPlayerEffect_queue handle_queue)

lemma run_queue:
  "\<forall>ev\<in>set evs. \<not> isPlaybackEvent ev \<Longrightarrow>
     queue (run env evs st) = queue st \<and> queueIndex (run env evs st) = queueIndex st"
proof (induction evs arbitrary: st)
  case Nil
  then show ?case by (simp add: run_def)
next
  case (Cons ev evs)
  have "run env (ev # evs) st = run env evs (react env ev st)" by (simp add: run_def)
  with Cons show ?case by (simp add: react_queue)
qed

text \<open>
  C1. Whatever sequence of events follows, as long as none of them starts playback or steps
  the queue, the queue and the cursor stay what they were; changes of the search text, the
  sort mode, the route, the unlock flag and the like overlay are such events. Read the other
  way round: an event after which the queue or the cursor differs is a start of playback
  or a step.
\<close>

theorem queue_snapshot_stable:
  "((\<forall>ev\<in>set evs. \<not> isPlaybackEvent ev) \<longrightarrow>
      queue (run env evs st) = queue st \<and> queueIndex (run env evs st) = queueIndex st) \<and>
   (queue (react env e st) \<noteq> queue st \<or> queueIndex (react env e st) \<noteq> queueIndex st
      \<longrightarrow> isPlaybackEvent e)"
  using run_queue[of evs env st] react_queue[of e env st] by blast

lemma visible_demo_unlocked:
  "visible demoPlatform ((initialApp demoSongs)\<lparr>path := ''/private'', privateUnlocked := True\<rparr>)
     = [diminished, beGood, sunset]"
  by (simp add: visible_def visibleSongs_def sortSongs_def textFilter_def visibilityGate_def
      initialApp_def demoSongs_def beGood_def diminished_def sunset_def mkSong_def trim_def
      toLowerCase_def sortBy_def notAfter_def byDateDesc_def demoPlatform_def demoGetTime_def)

lemma demo_started:
  "queue (react demoPlatform (PlayBySong beGood)
            ((initialApp demoSongs)\<lparr>path := ''/private'', privateUnlocked := True\<rparr>)) = [2, 1, 3]"
  "queueIndex (react demoPlatform (PlayBySong beGood)
            ((initialApp demoSongs)\<lparr>path := ''/private'', privateUnlocked := True\<rparr>)) = Some 1"
  by (simp_all add: react_def miniPlayerEffect_queue playBySong_def visible_demo_unlocked
        demo_ids indexOf_def Let_def navigate_def)

text \<open>
  The scenario of the specification: with three songs visible, playing the second gives
  the queue of the three and the cursor one; a search text that filters the first song out,
  another sort mode, another route, the lock and a like leave both as they are.
\<close>

theorem queue_snapshot_stable_witness:
  "queue (react demoPlatform (PlayBySong beGood)
            ((initialApp demoSongs)\<lparr>path := ''/private'', privateUnlocked := True\<rparr>)) = [2, 1, 3] \<and>
   queueIndex (react demoPlatform (PlayBySong beGood)
            ((initialApp demoSongs)\<lparr>path := ''/private'', privateUnlocked := True\<rparr>)) = Some 1 \<and>
   queue (run demoPlatform
            [SetQuery ''good'', SetSortMode ''az'', Navigate ''/music'', SetPrivateUnlocked False,
             ToggleLike 3, HashChange ''#/private'']
            (react demoPlatform (PlayBySong beGood)
               ((initialApp demoSongs)\<lparr>path := ''/private'', privateUnlocked := True\<rparr>)))
     = [2, 1, 3] \<and>
   queueIndex (run demoPlatform
            [SetQuery ''good'', SetSortMode ''az'', Navigate ''/music'', SetPrivateUnlocked False,
             ToggleLike 3, HashChange ''#/private'']
            (react demoPlatform (PlayBySong beGood)
               ((initialApp demoSongs)\<lparr>path := ''/private'', privateUnlocked := True\<rparr>)))
     = Some 1 \<and>
   isPlaybackEvent (PlayBySong beGood)"
proof -
  let ?s0 = "(initialApp demoSongs)\<lparr>path := ''/private'', privateUnlocked := True\<rparr>"
  let ?s1 = "react demoPlatform (PlayBySong beGood) ?s0"
  let ?evs = "[SetQuery ''good'', SetSortMode ''az'', Navigate ''/music'',
               SetPrivateUnlocked False, ToggleLike 3, HashChange ''#/private'']"
  have quiet: "\<forall>ev\<in>set ?evs. \<not> isPlaybackEvent ev" by simp
  have "queue ?s0 = []" by (simp add: initialApp_def)
  then have changed: "queue ?s1 \<noteq> queue ?s0 \<or> queueIndex ?s1 \<noteq> queueIndex ?s0"
    using demo_started(1) by simp
  from queue_snapshot_stable[of ?evs demoPlatform ?s1 "PlayBySong beGood"] quiet
  have kept: "queue (run demoPlatform ?evs ?s1) = queue ?s1 \<and>
              queueIndex (run demoPlatform ?evs ?s1) = queueIndex ?s1"
    by blast
  from queue_snapshot_stable[of "[]" demoPlatform ?s0 "PlayBySong beGood"] changed
  have "isPlaybackEvent (PlayBySong beGood)" by blast
  with kept show ?thesis by (simp add: demo_started)
qed


section \<open>The cursor stays inside the queue\<close>

lemma cursorInBounds_effect: "cursorInBounds (miniPlayerEffect st) = cursorInBounds st"
  by (simp add: cursorInBounds_def miniPlayerEffect_queue split: option.splits)

lemma cursorInBounds_playBySong:
  assumes "cursorInBounds st" shows "cursorInBounds (playBySong env sg st)"
proof (cases "songId sg \<in> set (map songId (visible env st))")
  case True
  from indexOf_first[OF True] playBySong_queue_fields(1,2)[OF True]
  show ?thesis by (simp add: cursorInBounds_def)
next
  case False
  with assms show ?thesis by (simp add: playBySong_absent)
qed

lemma cursorInBounds_playAll:
  assumes "cursorInBounds st" shows "cursorInBounds (playAllVisible env st)"
proof (cases "visible env st = []")
  case True
  with assms show ?thesis by (simp add: playAllVisible_def)
next
  case False
  then show ?thesis
    by (simp add: cursorInBounds_def playAllVisible_def Let_def navigate_def split: option.splits)
qed

lemma cursorInBounds_step:
  assumes "cursorInBounds st" "dir = 1 \<or> dir = -1"
  shows "cursorInBounds (stepQueue dir st)"
proof (cases "queue st = [] \<or> queueIndex st = None")
  case True
  then have "stepQueue dir st = st" by (auto simp: stepQueue_def split: option.splits)
  with assms show ?thesis by simp
next
  case False
  then obtain i where i: "queueIndex st = Some i" and ne: "queue st \<noteq> []" by auto
  from assms(1) i have b: "0 \<le> i" "i < int (length (queue st))"
    by (simp_all add: cursorInBounds_def)
  have pos: "0 < int (length (queue st))" using ne by simp
  have nn: "0 \<le> i + dir + int (length (queue st))" using b assms(2) by auto
  show ?thesis
    using i ne pos jsRem_nonneg[OF nn pos]
    by (simp add: cursorInBounds_def stepQueue_def)
qed

lemma cursorInBounds_handle:
  assumes "cursorInBounds st" shows "cursorInBounds (handle env ev st)"
proof (cases "isPlaybackEvent ev")
  case False
  with assms handle_queue[OF False, of env st] show ?thesis
    by (simp add: cursorInBounds_def split: option.splits)
next
  case True
  then show ?thesis using assms
    by (cases ev)
       (simp_all add: cursorInBounds_playBySong cursorInBounds_playAll cursorInBounds_step)
qed

lemma cursorInBounds_run:
  "cursorInBounds st \<Longrightarrow> cursorInBounds (run env evs st)"
proof (induction evs arbitrary: st)
  case Nil
  then show ?case by (simp add: run_def)
next
  case (Cons ev evs)
  have "run env (ev # evs) st = run env evs (react env ev st)" by (simp add: run_def)
  with Cons show ?case by (simp add: react_def cursorInBounds_effect cursorInBounds_handle)
qed

lemma cursorInBounds_reachable: "cursorInBounds (run env evs (initialApp catalog))"
  by (rule cursorInBounds_run) (simp add: cursorInBounds_def initialApp_def)

section \<open>Importing a file whose top level is not an object\<close>

lemma import_steps_array:
  "importSongs (JArr xs) st = st" "importLiked (JArr xs) st = st"
  "importComments (JArr xs) st = st" "importGuestbook (JArr xs) st = st"
  "importPrivateUnlocked (JArr xs) st = st" "importSortMode (JArr xs) st = st"
  by (simp_all add: importSongs_def importLiked_def importComments_def importGuestbook_def
        importPrivateUnlocked_def importSortMode_def getProp_def isArray_def)

text \<open>
  A file that does not parse, and a file whose top level is \<open>null\<close>, a boolean, a number or
  a string, are rejected: the status line reports the failure and the six slices are as
  before.
\<close>

lemma onImportFile_rejects:
  assumes "chosen = Unparsable \<or> chosen = Parsed JNull \<or> chosen = Parsed (JBool b) \<or>
           chosen = Parsed (JNum n) \<or> chosen = Parsed (JStr s)"
  shows "status (onImportFile (Some chosen) st) = importFailed \<and>
         slices (onImportFile (Some chosen) st) = slices st"
  using assms by (auto simp: onImportFile_def jsTruthy_def typeofObject_def slices_def)

text \<open>
  C6. The specification asks that a file whose top level is not an object, a JSON array in
  particular, fails as a whole and that the failure is reported. \<open>onImportFile\<close> tests
  the top level with \<open>typeof parsed !== "object"\<close>, which an array passes: for every array
  and every page the six slices are left as they were, yet the status line reports
  \<open>Import complete.\<close>, not the failure.
\<close>

theorem onImportFile_array_reports_complete:
  "onImportFile (Some (Parsed (JArr xs))) st = st\<lparr>status := importComplete\<rparr> \<and>
   slices (onImportFile (Some (Parsed (JArr xs))) st) = slices st \<and>
   status (onImportFile (Some (Parsed (JArr xs))) st) \<noteq> importFailed"
  by (simp add: onImportFile_def jsTruthy_def typeofObject_def import_steps_array slices_def
        importComplete_def importFailed_def)

text \<open>The array \<open>[]\<close> imported into a page: reported as complete, slices as before.\<close>

theorem onImportFile_array_reports_complete_witness:
  "status (onImportFile (Some (Parsed (JArr []))) demoPage) = ''Import complete.'' \<and>
   slices (onImportFile (Some (Parsed (JArr []))) demoPage) = slices demoPage"
  using onImportFile_array_reports_complete[of "[]" demoPage]
  by (simp add: importComplete_def slices_def)

section \<open>Playing a song that has no audio\<close>

lemmas demo_eval =
  visible_def visibleSongs_def sortSongs_def textFilter_def visibilityGate_def
  initialApp_def demoSongs_def beGood_def diminished_def sunset_def mkSong_def trim_def
  toLowerCase_def sortBy_def notAfter_def byDateDesc_def demoPlatform_def demoGetTime_def
  react_def run_def playBySong_def indexOf_def navigate_def startsWith_def
  miniPlayerEffect_def trackChanged_def currentId_def currentUrl_def currentSong_def at_def
  togglePlay_def alert_def Let_def

lemma togglePlay_no_audio:
  assumes "currentUrl st = []"
  shows "togglePlay st = alert noAudioNotice st"
    and "notices (togglePlay st) = notices st @ [noAudioNotice]"
    and "queue (togglePlay st) = queue st"
    and "queueIndex (togglePlay st) = queueIndex st"
    and "isPlaying (togglePlay st) = isPlaying st"
  using assms by (simp_all add: togglePlay_def alert_def)

lemma miniPlayerEffect_notices: "notices (miniPlayerEffect st) = notices st"
  by (simp add: miniPlayerEffect_def Let_def)

lemma playBySong_notices: "notices (playBySong env sg st) = notices st"
  by (simp add: playBySong_def Let_def navigate_def)

lemma miniPlayerEffect_forces_false:
  "trackChanged st \<Longrightarrow> currentUrl st = [] \<Longrightarrow> \<not> isPlaying (miniPlayerEffect st)"
  by (simp add: miniPlayerEffect_def Let_def)

text \<open>
  C5 as stated fails. Playing the visible song \<open>beGood\<close>, which has no audio, from the
  first state shows no notice and does change the queue and the cursor. And the toggle,
  which does show the notice, does not force the playing flag to false: after the same song
  has been started twice the flag is true, and it stays true over the toggle.
\<close>

theorem missing_audio_counterexample:
  "beGood \<in> set (visible demoPlatform (initialApp demoSongs)) \<and> audioUrl beGood = [] \<and>
   notices (react demoPlatform (PlayBySong beGood) (initialApp demoSongs)) = [] \<and>
   queue (initialApp demoSongs) = [] \<and>
   queue (react demoPlatform (PlayBySong beGood) (initialApp demoSongs)) = [2, 1] \<and>
   queueIndex (initialApp demoSongs) = None \<and>
   queueIndex (react demoPlatform (PlayBySong beGood) (initialApp demoSongs)) = Some 1 \<and>
   notices (run demoPlatform [PlayBySong beGood, PlayBySong beGood, TogglePlay]
              (initialApp demoSongs)) = [noAudioNotice] \<and>
   isPlaying (run demoPlatform [PlayBySong beGood, PlayBySong beGood, TogglePlay]
              (initialApp demoSongs))"
  by (simp add: demo_eval)

text \<open>
  C5, amended. When the current song has no audio source (or there is no current song),
  \<open>togglePlay\<close> shows the notice and changes nothing else: queue, cursor and playing flag
  are as before. \<open>playBySong\<close> on a visible song shows no notice and takes the snapshot
  whether the song has audio or not: the queue is the visible list's identifiers and the
  cursor the position of the song. If that changed the track and the new current song has
  no audio source, the effect of \<open>MiniPlayer\<close> then sets the playing flag to false.
\<close>

theorem missing_audio_spec:
  "(currentUrl st = [] \<longrightarrow>
      togglePlay st = alert noAudioNotice st \<and>
      notices (togglePlay st) = notices st @ [noAudioNotice] \<and>
      queue (togglePlay st) = queue st \<and>
      queueIndex (togglePlay st) = queueIndex st \<and>
      isPlaying (togglePlay st) = isPlaying st) \<and>
   (songId sg \<in> set (map songId (visible env st)) \<longrightarrow>
      queue (react env (PlayBySong sg) st) = map songId (visible env st) \<and>
      queueIndex (react env (PlayBySong sg) st)
        = Some (indexOf (map songId (visible env st)) (songId sg)) \<and>
      notices (react env (PlayBySong sg) st) = notices st) \<and>
   (trackChanged (playBySong env sg st) \<and> currentUrl (playBySong env sg st) = [] \<longrightarrow>
      \<not> isPlaying (react env (PlayBySong sg) st))"
proof (intro conjI impI)
  assume a: "currentUrl st = []"
  show "togglePlay st = alert noAudioNotice st" by (rule togglePlay_no_audio(1)[OF a])
  show "notices (togglePlay st) = notices st @ [noAudioNotice]"
    by (rule togglePlay_no_audio(2)[OF a])
  show "queue (togglePlay st) = queue st" by (rule togglePlay_no_audio(3)[OF a])
  show "queueIndex (togglePlay st) = queueIndex st" by (rule togglePlay_no_audio(4)[OF a])
  show "isPlaying (togglePlay st) = isPlaying st" by (rule togglePlay_no_audio(5)[OF a])
next
  assume p: "songId sg \<in> set (map songId (visible env st))"
  show "queue (react env (PlayBySong sg) st) = map songId (visible env st)"
    using playBySong_queue_fields(1)[OF p] by (simp add: react_def miniPlayerEffect_queue)
  show "queueIndex (react env (PlayBySong sg) st)
          = Some (indexOf (map songId (visible env st)) (songId sg))"
    using playBySong_queue_fields(2)[OF p] by (simp add: react_def miniPlayerEffect_queue)
next
  show "notices (react env (PlayBySong sg) st) = notices st"
    by (simp add: react_def miniPlayerEffect_notices playBySong_notices)
next
  assume "trackChanged (playBySong env sg st) \<and> currentUrl (playBySong env sg st) = []"
  then show "\<not> isPlaying (react env (PlayBySong sg) st)"
    by (simp add: react_def miniPlayerEffect_forces_false)
qed

lemma demo_play_beGood:
  "currentUrl (react demoPlatform (PlayBySong beGood) (initialApp demoSongs)) = []"
  "trackChanged (playBySong demoPlatform beGood (initialApp demoSongs))"
  "currentUrl (playBySong demoPlatform beGood (initialApp demoSongs)) = []"
  by (simp_all add: demo_eval)

text \<open>
  With the seed songs, none of which has audio: playing \<open>beGood\<close> from the first state
  takes the snapshot without a notice and leaves the flag false; the toggle that follows
  shows the notice and keeps queue, cursor and flag.
\<close>

theorem missing_audio_spec_witness:
  "queue (react demoPlatform (PlayBySong beGood) (initialApp demoSongs)) = [2, 1] \<and>
   queueIndex (react demoPlatform (PlayBySong beGood) (initialApp demoSongs)) = Some 1 \<and>
   notices (react demoPlatform (PlayBySong beGood) (initialApp demoSongs)) = [] \<and>
   \<not> isPlaying (react demoPlatform (PlayBySong beGood) (initialApp demoSongs)) \<and>
   notices (togglePlay (react demoPlatform (PlayBySong beGood) (initialApp demoSongs)))
     = [noAudioNotice] \<and>
   queue (togglePlay (react demoPlatform (PlayBySong beGood) (initialApp demoSongs))) = [2, 1] \<and>
   queueIndex (togglePlay (react demoPlatform (PlayBySong beGood) (initialApp demoSongs)))
     = Some 1 \<and>
   \<not> isPlaying (togglePlay (react demoPlatform (PlayBySong beGood) (initialApp demoSongs)))"
proof -
  let ?s0 = "initialApp demoSongs"
  let ?s1 = "react demoPlatform (PlayBySong beGood) ?s0"
  have v: "songId beGood \<in> set (map songId (visible demoPlatform ?s0))"
    by (simp add: visible_demo_home demo_ids)
  have n0: "notices ?s0 = []" by (simp add: initialApp_def)
  note t = missing_audio_spec[of ?s0 beGood demoPlatform]
  note u = missing_audio_spec[of ?s1 beGood demoPlatform]
  from t v have 1: "queue ?s1 = map songId (visible demoPlatform ?s0)"
    and 2: "queueIndex ?s1 = Some (indexOf (map songId (visible demoPlatform ?s0)) (songId beGood))"
    and 3: "notices ?s1 = notices ?s0" by blast+
  from t demo_play_beGood(2,3) have 4: "\<not> isPlaying ?s1" by blast
  from u demo_play_beGood(1) have 5: "notices (togglePlay ?s1) = notices ?s1 @ [noAudioNotice]"
    and 6: "queue (togglePlay ?s1) = queue ?s1"
    and 7: "queueIndex (togglePlay ?s1) = queueIndex ?s1"
    and 8: "isPlaying (togglePlay ?s1) = isPlaying ?s1" by blast+
  have ix: "indexOf (map songId (visible demoPlatform ?s0)) (songId beGood) = 1"
    by (simp add: visible_demo_home demo_ids indexOf_def)
  show ?thesis
    unfolding 5 6 7 8 3 n0 using 1 2 4 ix by (simp add: visible_demo_home demo_ids)
qed

section \<open>The two players after a change of search text or sort mode\<close>

lemma currentSong_cong:
  "queue a = queue b \<Longrightarrow> queueIndex a = queueIndex b \<Longrightarrow> songs a = songs b \<Longrightarrow>
     currentSong a = currentSong b"
  by (simp add: currentSong_def split: option.splits)

lemma miniPlayerEffect_songs: "songs (miniPlayerEffect st) = songs st"
  by (simp add: miniPlayerEffect_def Let_def)

lemma currentSong_effect: "currentSong (miniPlayerEffect st) = currentSong st"
  by (rule currentSong_cong) (simp_all add: miniPlayerEffect_queue miniPlayerEffect_songs)

lemma currentSong_setQuery: "currentSong (react env (SetQuery q) st) = currentSong st"
  unfolding react_def currentSong_effect by (rule currentSong_cong) simp_all

lemma currentSong_setSortMode: "currentSong (react env (SetSortMode m) st) = currentSong st"
  unfolding react_def currentSong_effect by (rule currentSong_cong) simp_all

lemma trackLive_effect: "trackLive env (miniPlayerEffectLive env st) = trackLive env st"
  by (simp add: trackLive_def miniPlayerEffectLive_def visible_def Let_def split: option.splits)

lemma activeIndex_effect: "activeIndex (miniPlayerEffectLive env st) = activeIndex st"
  by (simp add: miniPlayerEffectLive_def Let_def split: option.splits)

lemmas live_eval =
  visible_def visibleSongs_def sortSongs_def textFilter_def visibilityGate_def
  initialApp_def initialLive_def demoAudioSongs_def beGood_def diminished_def sunset_def
  mkSong_def trim_def toLowerCase_def sortBy_def notAfter_def byDateDesc_def byTitleAsc_def
  demoPlatform_def demoGetTime_def react_def playBySong_def playBySongLive_def indexOf_def
  navigate_def startsWith_def miniPlayerEffect_def trackChanged_def currentId_def
  currentUrl_def currentSong_def at_def miniPlayerEffectLive_def trackLive_def
  matchesQuery_def isWhiteSpace_def lowerChar_def Let_def

text \<open>
  C10 as stated fails: the two players differ in exactly this scenario. With the two public
  songs visible, newest first, both players are started on \<open>Be Good\<close>, the second in the
  list. After the sort mode is set to \<open>az\<close> the queue-based player still has \<open>Be Good\<close>
  (identifier 1) and its file loaded, while the index-based player, whose index 1 now
  points into the reordered list, has the other song (identifier 2) and loads that file.
  After the search text \<open>good\<close> the index-based player has no song at all.
\<close>

theorem players_differ_counterexample:
  "map_option songId (currentSong
      (react demoPlatform (PlayBySong beGood) (initialApp demoAudioSongs))) = Some 1 \<and>
   map_option songId (currentSong
      (react demoPlatform (SetSortMode ''az'')
         (react demoPlatform (PlayBySong beGood) (initialApp demoAudioSongs)))) = Some 1 \<and>
   audioSrc (react demoPlatform (SetSortMode ''az'')
         (react demoPlatform (PlayBySong beGood) (initialApp demoAudioSongs)))
     = ''/be-good-demo.mp3'' \<and>
   map_option songId (trackLive demoPlatform
      (miniPlayerEffectLive demoPlatform
         (playBySongLive demoPlatform beGood (initialLive demoAudioSongs)))) = Some 1 \<and>
   map_option songId (trackLive demoPlatform
      (miniPlayerEffectLive demoPlatform
         ((miniPlayerEffectLive demoPlatform
            (playBySongLive demoPlatform beGood (initialLive demoAudioSongs)))
          \<lparr>sortMode := ''az''\<rparr>))) = Some 2 \<and>
   audioSrc (miniPlayerEffectLive demoPlatform
         ((miniPlayerEffectLive demoPlatform
            (playBySongLive demoPlatform beGood (initialLive demoAudioSongs)))
          \<lparr>sortMode := ''az''\<rparr>))
     = ''/diminished-demo.mp3'' \<and>
   trackLive demoPlatform
      (miniPlayerEffectLive demoPlatform
         ((miniPlayerEffectLive demoPlatform
            (playBySongLive demoPlatform beGood (initialLive demoAudioSongs)))
          \<lparr>query := ''good''\<rparr>)) = None"
  by (simp add: live_eval)

text \<open>
  C10, amended. In \<open>src/App.tsx\<close> a change of the search text or of the sort mode leaves
  the current song as it is. In the index-based variant such a change leaves
  \<open>activeIndex\<close> as it is, and the current song is whatever the recomputed visible list
  holds at that index, or none if the index is outside of it.
\<close>

theorem players_after_filter:
  "currentSong (react env (SetQuery q) st) = currentSong st \<and>
   currentSong (react env (SetSortMode m) st) = currentSong st \<and>
   activeIndex (miniPlayerEffectLive env (lv\<lparr>query := q\<rparr>)) = activeIndex lv \<and>
   activeIndex (miniPlayerEffectLive env (lv\<lparr>sortMode := m\<rparr>)) = activeIndex lv \<and>
   trackLive env (miniPlayerEffectLive env (lv\<lparr>query := q\<rparr>))
     = (case activeIndex lv of None \<Rightarrow> None
        | Some i \<Rightarrow> at (visible env (lv\<lparr>query := q\<rparr>)) i) \<and>
   trackLive env (miniPlayerEffectLive env (lv\<lparr>sortMode := m\<rparr>))
     = (case activeIndex lv of None \<Rightarrow> None
        | Some i \<Rightarrow> at (visible env (lv\<lparr>sortMode := m\<rparr>)) i)"
  by (simp add: currentSong_setQuery currentSong_setSortMode trackLive_effect
        activeIndex_effect) (simp add: trackLive_def)

text \<open>
  The index-based player started on \<open>Be Good\<close> keeps its index 1 over both changes; the
  queue-based player keeps the song.
\<close>

theorem players_after_filter_witness:
  "map_option songId (currentSong
      (react demoPlatform (SetQuery ''good'')
         (react demoPlatform (PlayBySong beGood) (initialApp demoAudioSongs)))) = Some 1 \<and>
   map_option songId (currentSong
      (react demoPlatform (SetSortMode ''az'')
         (react demoPlatform (PlayBySong beGood) (initialApp demoAudioSongs)))) = Some 1 \<and>
   activeIndex (miniPlayerEffectLive demoPlatform
      ((miniPlayerEffectLive demoPlatform
          (playBySongLive demoPlatform beGood (initialLive demoAudioSongs)))
       \<lparr>sortMode := ''az''\<rparr>)) = Some 1 \<and>
   activeIndex (miniPlayerEffectLive demoPlatform
      ((miniPlayerEffectLive demoPlatform
          (playBySongLive demoPlatform beGood (initialLive demoAudioSongs)))
       \<lparr>query := ''good''\<rparr>)) = Some 1"
proof -
  let ?s1 = "react demoPlatform (PlayBySong beGood) (initialApp demoAudioSongs)"
  let ?l1 = "miniPlayerEffectLive demoPlatform
               (playBySongLive demoPlatform beGood (initialLive demoAudioSongs))"
  note t = players_after_filter[of demoPlatform "''good''" ?s1 "''az''" ?l1]
  have c: "map_option songId (currentSong ?s1) = Some 1" by (simp add: live_eval)
  have a: "activeIndex ?l1 = Some 1" by (simp add: live_eval)
  from t c a show ?thesis by simp
qed

section \<open>The comparator sort\<close>

lemma mset_insertSorted: "mset (insertSorted cmp x ys) = add_mset x (mset ys)"
  by (induction ys) simp_all

lemma mset_sortBy: "mset (sortBy cmp xs) = mset xs"
  by (induction xs) (simp_all add: sortBy_def mset_insertSorted)

lemma set_sortBy: "set (sortBy cmp xs) = set xs"
  by (rule mset_eq_setD) (rule mset_sortBy)

lemma length_sortBy: "length (sortBy cmp xs) = length xs"
  by (rule mset_eq_length) (rule mset_sortBy)






lemma mset_sortSongs: "mset (sortSongs env mode lk base) = mset base"
  by (simp add: sortSongs_def mset_sortBy)

lemma set_sortSongs: "set (sortSongs env mode lk base) = set base"
  by (simp add: sortSongs_def set_sortBy)

lemma length_sortSongs: "length (sortSongs env mode lk base) = length base"
  by (simp add: sortSongs_def length_sortBy)

section \<open>The visibility gate\<close>

lemma mset_visibleSongs:
  "mset (visibleSongs env catalog text route unlocked mode lk)
     = mset (textFilter text (visibilityGate catalog route unlocked))"
  by (simp add: visibleSongs_def mset_sortSongs)

lemma set_visibleSongs:
  "set (visibleSongs env catalog text route unlocked mode lk)
     = set (textFilter text (visibilityGate catalog route unlocked))"
  by (simp add: visibleSongs_def set_sortSongs)

lemma textFilter_subset: "mset (textFilter text base) \<subseteq># mset base"
  by (simp add: textFilter_def Let_def)

lemma visibilityGate_subset: "mset (visibilityGate catalog route unlocked) \<subseteq># mset catalog"
  by (simp add: visibilityGate_def)

lemma visibleSongs_subset:
  "mset (visibleSongs env catalog text route unlocked mode lk) \<subseteq># mset catalog"
  unfolding mset_visibleSongs
  by (rule subset_mset.order_trans[OF textFilter_subset visibilityGate_subset])

text \<open>
  C2. Off the private route every visible song is public. On the private route nothing is
  visible while the unlock flag is false; with the flag true the gate lets the whole
  catalogue through, so that the visible songs are the catalogue's songs that pass the text
  filter, whatever their visibility, and the whole catalogue when the search text is empty.
  In every case the visible songs are among the catalogue's, and no more than they.
\<close>

theorem visibility_gate:
  "(route \<noteq> ''/private'' \<longrightarrow>
      (\<forall>s\<in>set (visibleSongs env catalog text route unlocked mode lk). visibility s = ''public'')) \<and>
   (route = ''/private'' \<and> \<not> unlocked \<longrightarrow>
      visibleSongs env catalog text route unlocked mode lk = []) \<and>
   (route = ''/private'' \<and> unlocked \<longrightarrow>
      mset (visibleSongs env catalog text route unlocked mode lk) = mset (textFilter text catalog)) \<and>
   (route = ''/private'' \<and> unlocked \<and> toLowerCase (trim text) = [] \<longrightarrow>
      mset (visibleSongs env catalog text route unlocked mode lk) = mset catalog) \<and>
   mset (visibleSongs env catalog text route unlocked mode lk) \<subseteq># mset catalog \<and>
   length (visibleSongs env catalog text route unlocked mode lk) \<le> length catalog"
proof (intro conjI impI)
  assume r: "route \<noteq> ''/private''"
  show "\<forall>s\<in>set (visibleSongs env catalog text route unlocked mode lk). visibility s = ''public''"
  proof
    fix s assume "s \<in> set (visibleSongs env catalog text route unlocked mode lk)"
    then have "s \<in> set (textFilter text (visibilityGate catalog route unlocked))"
      by (simp only: set_visibleSongs)
    then have "s \<in> set (visibilityGate catalog route unlocked)"
      by (simp add: textFilter_def Let_def split: if_splits)
    with r show "visibility s = ''public''" by (simp add: visibilityGate_def)
  qed
next
  assume "route = ''/private'' \<and> \<not> unlocked"
  then have "visibilityGate catalog route unlocked = []" by (simp add: visibilityGate_def)
  then have "mset (visibleSongs env catalog text route unlocked mode lk) = {#}"
    unfolding mset_visibleSongs by (simp add: textFilter_def Let_def)
  then show "visibleSongs env catalog text route unlocked mode lk = []" by simp
next
  assume "route = ''/private'' \<and> unlocked"
  then have "visibilityGate catalog route unlocked = catalog" by (simp add: visibilityGate_def)
  then show "mset (visibleSongs env catalog text route unlocked mode lk)
               = mset (textFilter text catalog)"
    unfolding mset_visibleSongs by simp
next
  assume a: "route = ''/private'' \<and> unlocked \<and> toLowerCase (trim text) = []"
  then have "visibilityGate catalog route unlocked = catalog" by (simp add: visibilityGate_def)
  with a show "mset (visibleSongs env catalog text route unlocked mode lk) = mset catalog"
    unfolding mset_visibleSongs by (simp add: textFilter_def)
next
  show "mset (visibleSongs env catalog text route unlocked mode lk) \<subseteq># mset catalog"
    by (rule visibleSongs_subset)
next
  show "length (visibleSongs env catalog text route unlocked mode lk) \<le> length catalog"
    using size_mset_mono[OF visibleSongs_subset[of env catalog "text" route unlocked mode lk]]
    by simp
qed

lemmas view_eval =
  visibleSongs_def sortSongs_def textFilter_def visibilityGate_def
  demoSongs_def beGood_def diminished_def sunset_def mkSong_def trim_def
  toLowerCase_def sortBy_def notAfter_def byDateDesc_def byLikesDesc_def byTitleAsc_def
  likeWeight_def truthy_def demoPlatform_def demoGetTime_def matchesQuery_def
  isWhiteSpace_def lowerChar_def startsWith_def Let_def

lemma demo_view_home:
  "visibleSongs demoPlatform demoSongs [] ''/'' False ''newest'' Map.empty = [diminished, beGood]"
  by (simp add: view_eval)

lemma demo_view_unlocked:
  "visibleSongs demoPlatform demoSongs [] ''/private'' True ''newest'' Map.empty
     = [diminished, beGood, sunset]"
  by (simp add: view_eval)

text \<open>
  The seed catalogue: on the home route the two public songs, on the locked private route
  nothing, on the unlocked private route all three, the private one among them.
\<close>

theorem visibility_gate_witness:
  "visibleSongs demoPlatform demoSongs [] ''/'' False ''newest'' Map.empty = [diminished, beGood] \<and>
   visibility diminished = ''public'' \<and> visibility beGood = ''public'' \<and>
   visibleSongs demoPlatform demoSongs [] ''/private'' False ''newest'' Map.empty = [] \<and>
   mset (visibleSongs demoPlatform demoSongs [] ''/private'' True ''newest'' Map.empty)
     = mset demoSongs \<and>
   visibility sunset = ''private'' \<and>
   sunset \<in> set (visibleSongs demoPlatform demoSongs [] ''/private'' True ''newest'' Map.empty) \<and>
   length (visibleSongs demoPlatform demoSongs [] ''/private'' True ''newest'' Map.empty) \<le> 3"
proof -
  note home = visibility_gate[of "''/''" demoPlatform demoSongs "[]" False "''newest''" Map.empty]
  note locked =
    visibility_gate[of "''/private''" demoPlatform demoSongs "[]" False "''newest''" Map.empty]
  note unlocked =
    visibility_gate[of "''/private''" demoPlatform demoSongs "[]" True "''newest''" Map.empty]
  have q: "toLowerCase (trim []) = []" by (simp add: toLowerCase_def trim_def)
  from home have 1: "visibility diminished = ''public'' \<and> visibility beGood = ''public''"
    by (simp add: demo_view_home)
  from locked have 2:
    "visibleSongs demoPlatform demoSongs [] ''/private'' False ''newest'' Map.empty = []"
    by simp
  from unlocked q have 3:
    "mset (visibleSongs demoPlatform demoSongs [] ''/private'' True ''newest'' Map.empty)
       = mset demoSongs"
    and 4: "length (visibleSongs demoPlatform demoSongs [] ''/private'' True ''newest'' Map.empty)
       \<le> length demoSongs"
    by blast+
  have 5: "visibility sunset = ''private''" by (simp add: sunset_def mkSong_def)
  have 6: "length demoSongs = 3" by (simp add: demoSongs_def)
  from 1 2 3 4 5 6 show ?thesis by (simp add: demo_view_home demo_view_unlocked)
qed


section \<open>The string primitives against their descriptions\<close>

lemma isWhiteSpace_code: "isWhiteSpace c = (of_char c \<in> whiteSpaceCodes)"
proof -
  have e: "\<And>d. (c = d) = ((of_char c :: nat) = of_char d)" by (simp add: of_char_eq_iff)
  show ?thesis unfolding isWhiteSpace_def whiteSpaceCodes_def e by auto
qed

lemma join_spaceJoined: "join '' '' ms = spaceJoined ms"
proof (induction "'' ''" ms rule: join.induct)
  case 1
  then show ?case by (simp add: spaceJoined_def)
next
  case (2 x)
  then show ?case by (simp add: spaceJoined_def)
next
  case (3 x y ys)
  then show ?case by (simp add: spaceJoined_def)
qed

lemma lowerChar_code:
  "(of_char (lowerChar c) :: nat)
     = (if capitalCode (of_char c) then of_char c + 32 else of_char c)"
proof (cases "capitalCode (of_char c)")
  case True
  define n where "n = (of_char c :: nat)"
  from True have r: "(65 \<le> n \<and> n \<le> 90) \<or> (192 \<le> n \<and> n \<le> 214) \<or> (216 \<le> n \<and> n \<le> 222)"
    by (auto simp: capitalCode_def n_def)
  then have lt: "n + 32 < 256" by linarith
  have low: "lowerChar c = char_of (n + 32)"
    using r unfolding lowerChar_def Let_def n_def by simp
  have "(of_char (char_of (n + 32)) :: nat) = (n + 32) mod 256" by (simp only: of_char_of)
  also have "\<dots> = n + 32" using lt by (rule mod_less)
  finally show ?thesis using True low by (simp add: n_def)
next
  case False
  then have "\<not> ((65 \<le> (of_char c :: nat) \<and> (of_char c :: nat) \<le> 90) \<or>
                (192 \<le> (of_char c :: nat) \<and> (of_char c :: nat) \<le> 214) \<or>
                (216 \<le> (of_char c :: nat) \<and> (of_char c :: nat) \<le> 222))"
    by (auto simp: capitalCode_def)
  then have "lowerChar c = c" unfolding lowerChar_def Let_def by (simp only: if_False)
  with False show ?thesis by simp
qed

lemma lowerChar_not_capital: "\<not> capitalCode (of_char (lowerChar c))"
  unfolding lowerChar_code by (auto simp: capitalCode_def)

lemma sameLetter_lower:
  assumes "\<not> capitalCode (of_char d)"
  shows "sameLetter c d = (lowerChar c = d)"
proof -
  have "(lowerChar c = d) = ((of_char (lowerChar c) :: nat) = of_char d)"
    by (simp add: of_char_eq_iff)
  also have "\<dots> = (if capitalCode (of_char c) then (of_char d :: nat) = of_char c + 32
                    else (of_char c :: nat) = of_char d)"
    unfolding lowerChar_code by auto
  also have "\<dots> = sameLetter c d"
  proof (cases "capitalCode (of_char c)")
    case True
    with assms have "c \<noteq> d" by auto
    with True assms show ?thesis by (simp add: sameLetter_def)
  next
    case False
    with assms show ?thesis by (auto simp: sameLetter_def of_char_eq_iff)
  qed
  finally show ?thesis by simp
qed

lemma list_all2_lower:
  "\<forall>c\<in>set q. \<not> capitalCode (of_char c) \<Longrightarrow>
     list_all2 sameLetter mid q = (map lowerChar mid = q)"
proof (induction mid arbitrary: q)
  case Nil
  then show ?case by auto
next
  case (Cons c mid)
  show ?case
  proof (cases q)
    case Nil
    then show ?thesis by simp
  next
    case (Cons d q')
    with Cons.prems have d: "\<not> capitalCode (of_char d)"
      and q': "\<forall>c\<in>set q'. \<not> capitalCode (of_char c)" by simp_all
    show ?thesis unfolding Cons using sameLetter_lower[OF d, of c] Cons.IH[OF q'] by simp
  qed
qed

lemma toLowerCase_no_capital: "\<forall>c\<in>set (toLowerCase t). \<not> capitalCode (of_char c)"
  by (simp add: toLowerCase_def lowerChar_not_capital)

lemma foldedOf_iff: "foldedOf t q = (q = toLowerCase t)"
proof
  assume "foldedOf t q"
  then have "list_all2 sameLetter t q" "\<forall>c\<in>set q. \<not> capitalCode (of_char c)"
    by (simp_all add: foldedOf_def)
  then have "map lowerChar t = q" by (simp add: list_all2_lower)
  then show "q = toLowerCase t" by (simp add: toLowerCase_def)
next
  assume q: "q = toLowerCase t"
  have n: "\<forall>c\<in>set q. \<not> capitalCode (of_char c)" unfolding q by (rule toLowerCase_no_capital)
  have "map lowerChar t = q" by (simp add: q toLowerCase_def)
  then have "list_all2 sameLetter t q" using list_all2_lower[OF n, of t] by simp
  with n show "foldedOf t q" by (simp add: foldedOf_def)
qed

lemma dropWhile_hd_keeps: "xs \<noteq> [] \<Longrightarrow> \<not> P (hd xs) \<Longrightarrow> dropWhile P xs = xs"
  by (cases xs) simp_all

lemma trim_is_trimmed: "trimmedOf text (trim text)"
proof -
  let ?d = "dropWhile isWhiteSpace text"
  let ?pre = "takeWhile isWhiteSpace text"
  let ?suf = "rev (takeWhile isWhiteSpace (rev ?d))"
  have t: "trim text = rev (dropWhile isWhiteSpace (rev ?d))" by (simp add: trim_def)
  have "?d = rev (takeWhile isWhiteSpace (rev ?d) @ dropWhile isWhiteSpace (rev ?d))"
    by (simp only: takeWhile_dropWhile_id rev_rev_ident)
  also have "\<dots> = rev (dropWhile isWhiteSpace (rev ?d)) @ ?suf" by (rule rev_append)
  finally have d: "?d = trim text @ ?suf" unfolding t .
  have "text = ?pre @ ?d" by simp
  then have split: "text = ?pre @ trim text @ ?suf" using d by simp
  have pre: "\<forall>c\<in>set ?pre. of_char c \<in> whiteSpaceCodes"
    using set_takeWhileD[of _ isWhiteSpace "text"] by (auto simp: isWhiteSpace_code)
  have suf: "\<forall>c\<in>set ?suf. of_char c \<in> whiteSpaceCodes"
    using set_takeWhileD[of _ isWhiteSpace "rev ?d"] by (auto simp: isWhiteSpace_code)
  have ends: "trim text \<noteq> [] \<longrightarrow>
                of_char (hd (trim text)) \<notin> whiteSpaceCodes \<and>
                of_char (last (trim text)) \<notin> whiteSpaceCodes"
  proof
    assume ne: "trim text \<noteq> []"
    then have dne: "?d \<noteq> []" using d by (metis append_is_Nil_conv)
    have "hd ?d = hd (trim text)" using d ne by (metis hd_append2)
    moreover have "\<not> isWhiteSpace (hd ?d)" using dne by (rule hd_dropWhile)
    ultimately have h: "of_char (hd (trim text)) \<notin> whiteSpaceCodes"
      by (simp add: isWhiteSpace_code)
    from ne have rne: "dropWhile isWhiteSpace (rev ?d) \<noteq> []" unfolding t by simp
    have "last (trim text) = hd (dropWhile isWhiteSpace (rev ?d))"
      unfolding t using rne by (simp add: last_rev)
    moreover have "\<not> isWhiteSpace (hd (dropWhile isWhiteSpace (rev ?d)))"
      using rne by (rule hd_dropWhile)
    ultimately have l: "of_char (last (trim text)) \<notin> whiteSpaceCodes"
      by (simp add: isWhiteSpace_code)
    from h l show "of_char (hd (trim text)) \<notin> whiteSpaceCodes \<and>
                   of_char (last (trim text)) \<notin> whiteSpaceCodes" ..
  qed
  show ?thesis unfolding trimmedOf_def using split pre suf ends by blast
qed

lemma trimmed_is_trim:
  assumes "trimmedOf text t"
  shows "t = trim text"
proof -
  from assms obtain pre suf where
    split: "text = pre @ t @ suf" and
    pre: "\<forall>c\<in>set pre. isWhiteSpace c" and
    suf: "\<forall>c\<in>set suf. isWhiteSpace c" and
    ends: "t \<noteq> [] \<longrightarrow> \<not> isWhiteSpace (hd t) \<and> \<not> isWhiteSpace (last t)"
    unfolding trimmedOf_def isWhiteSpace_code by blast
  show ?thesis
  proof (cases "t = []")
    case True
    with split pre suf have "\<forall>c\<in>set text. isWhiteSpace c" by auto
    then have d: "dropWhile isWhiteSpace text = []" by (simp only: dropWhile_eq_Nil_conv)
    show ?thesis unfolding trim_def d using True by simp
  next
    case False
    with ends have h: "\<not> isWhiteSpace (hd t)" and l: "\<not> isWhiteSpace (last t)" by simp_all
    have "dropWhile isWhiteSpace text = dropWhile isWhiteSpace (t @ suf)"
      unfolding split by (rule dropWhile_append2) (use pre in simp)
    also have "\<dots> = t @ suf"
    proof (rule dropWhile_hd_keeps)
      show "t @ suf \<noteq> []" using False by simp
      show "\<not> isWhiteSpace (hd (t @ suf))" using False h by simp
    qed
    finally have d: "dropWhile isWhiteSpace text = t @ suf" .
    have rs: "\<forall>c\<in>set (rev suf). isWhiteSpace c" using suf by simp
    have "dropWhile isWhiteSpace (rev (t @ suf)) = dropWhile isWhiteSpace (rev t)"
      unfolding rev_append by (rule dropWhile_append2) (use rs in simp)
    also have "\<dots> = rev t"
    proof (rule dropWhile_hd_keeps)
      show "rev t \<noteq> []" using False by simp
      show "\<not> isWhiteSpace (hd (rev t))" using False l by (simp add: hd_rev)
    qed
    finally show ?thesis unfolding trim_def d by simp
  qed
qed

lemma trimmedOf_iff: "trimmedOf text t = (t = trim text)"
  using trim_is_trimmed trimmed_is_trim by blast


section \<open>The text filter\<close>

lemma startsWith_iff: "startsWith s p = (\<exists>suf. s = p @ suf)"
proof
  assume "startsWith s p"
  then have "s = p @ drop (length p) s"
    unfolding startsWith_def by (metis append_take_drop_id)
  then show "\<exists>suf. s = p @ suf" ..
next
  assume "\<exists>suf. s = p @ suf"
  then show "startsWith s p" by (auto simp: startsWith_def)
qed

lemma includesStr_iff: "includesStr s q = (\<exists>pre suf. s = pre @ q @ suf)"
proof (induction s)
  case Nil
  then show ?case by simp
next
  case (Cons c cs)
  show ?case
  proof
    assume "includesStr (c # cs) q"
    then consider "startsWith (c # cs) q" | "includesStr cs q" by auto
    then show "\<exists>pre suf. c # cs = pre @ q @ suf"
    proof cases
      case 1
      then obtain suf where "c # cs = q @ suf" unfolding startsWith_iff ..
      then have "c # cs = [] @ q @ suf" by simp
      then show ?thesis by blast
    next
      case 2
      then obtain pre suf where "cs = pre @ q @ suf" using Cons.IH by blast
      then have "c # cs = (c # pre) @ q @ suf" by simp
      then show ?thesis by blast
    qed
  next
    assume "\<exists>pre suf. c # cs = pre @ q @ suf"
    then obtain pre suf where e: "c # cs = pre @ q @ suf" by blast
    show "includesStr (c # cs) q"
    proof (cases pre)
      case Nil
      with e have "startsWith (c # cs) q" unfolding startsWith_iff by auto
      then show ?thesis by simp
    next
      case (Cons p pre')
      with e have "cs = pre' @ q @ suf" by simp
      then have "includesStr cs q" using Cons.IH by blast
      then show ?thesis by simp
    qed
  qed
qed

lemma includesStr_folded:
  assumes "\<forall>c\<in>set q. \<not> capitalCode (of_char c)"
  shows "includesStr (toLowerCase hay) q = containsIgnoringCase hay q"
proof
  assume "includesStr (toLowerCase hay) q"
  then obtain pre suf where e: "map lowerChar hay = pre @ (q @ suf)"
    unfolding includesStr_iff toLowerCase_def by blast
  from e[unfolded map_eq_append_conv]
  obtain a r where h1: "hay = a @ r" and r: "q @ suf = map lowerChar r"
    by blast
  from r[symmetric, unfolded map_eq_append_conv]
  obtain b c where h2: "r = b @ c" and m: "q = map lowerChar b"
    by blast
  from m have "list_all2 sameLetter b q" using list_all2_lower[OF assms, of b] by simp
  with h1 h2 have "hay = a @ b @ c \<and> list_all2 sameLetter b q" by simp
  then show "containsIgnoringCase hay q" unfolding containsIgnoringCase_def by blast
next
  assume "containsIgnoringCase hay q"
  then obtain pre mid suf where h: "hay = pre @ mid @ suf" and m: "list_all2 sameLetter mid q"
    unfolding containsIgnoringCase_def by blast
  from m have "map lowerChar mid = q" using list_all2_lower[OF assms, of mid] by simp
  with h have "toLowerCase hay = toLowerCase pre @ q @ toLowerCase suf"
    by (simp add: toLowerCase_def)
  then show "includesStr (toLowerCase hay) q" unfolding includesStr_iff by blast
qed

lemma matchesQuery_folded:
  assumes "\<forall>c\<in>set q. \<not> capitalCode (of_char c)"
  shows "matchesQuery q = matchesText q"
  by (rule ext)
     (simp add: matchesQuery_def matchesText_def includesStr_folded[OF assms] join_spaceJoined)

lemma textFilter_folded:
  assumes "trimmedOf text t" "foldedOf t q"
  shows "textFilter text base = (if q \<noteq> [] then filter (matchesText q) base else base)"
proof -
  from assms have q: "q = toLowerCase (trim text)"
    by (simp add: trimmedOf_iff foldedOf_iff)
  have "matchesQuery q = matchesText q"
    by (rule matchesQuery_folded) (simp add: q toLowerCase_no_capital)
  then show ?thesis by (simp add: textFilter_def Let_def q)
qed

lemma whitespace_text_trims:
  assumes "\<forall>c\<in>set text. of_char c \<in> whiteSpaceCodes"
  shows "trimmedOf text []"
  unfolding trimmedOf_def
proof (intro exI conjI)
  show "text = text @ [] @ []" by simp
  show "\<forall>c\<in>set text. of_char c \<in> whiteSpaceCodes" by (rule assms)
  show "\<forall>c\<in>set []. of_char c \<in> whiteSpaceCodes" by simp
  show "[] \<noteq> [] \<longrightarrow> of_char (hd []) \<notin> whiteSpaceCodes \<and> of_char (last []) \<notin> whiteSpaceCodes"
    by simp
qed

text \<open>
  C7. Every search text has a trimmed form, and that a folded form. Let the text be the
  search text trimmed and folded to lower case. If it is not empty, the visible songs are
  exactly the songs past the visibility gate whose title, genre or moods joined by spaces
  contain the text as a substring when case is ignored (the same songs with the same
  multiplicity, put in order by the sort). If it is empty, and so for a search text of white
  space only, they are exactly the songs past the gate.
\<close>

theorem text_filter_spec:
  "(\<exists>t q. trimmedOf text t \<and> foldedOf t q) \<and>
   (\<forall>t q. trimmedOf text t \<and> foldedOf t q \<longrightarrow>
      (q \<noteq> [] \<longrightarrow>
         visibleSongs env catalog text route unlocked mode lk
           = sortSongs env mode lk
               (filter (matchesText q) (visibilityGate catalog route unlocked)) \<and>
         mset (visibleSongs env catalog text route unlocked mode lk)
           = mset (filter (matchesText q) (visibilityGate catalog route unlocked))) \<and>
      (q = [] \<longrightarrow>
         visibleSongs env catalog text route unlocked mode lk
           = sortSongs env mode lk (visibilityGate catalog route unlocked) \<and>
         mset (visibleSongs env catalog text route unlocked mode lk)
           = mset (visibilityGate catalog route unlocked))) \<and>
   ((\<forall>c\<in>set text. of_char c \<in> whiteSpaceCodes) \<longrightarrow>
      mset (visibleSongs env catalog text route unlocked mode lk)
        = mset (visibilityGate catalog route unlocked))"
proof (intro conjI allI impI)
  have "trimmedOf text (trim text) \<and> foldedOf (trim text) (toLowerCase (trim text))"
    by (simp add: trimmedOf_iff foldedOf_iff)
  then show "\<exists>t q. trimmedOf text t \<and> foldedOf t q" by blast
next
  fix t q
  assume a: "trimmedOf text t \<and> foldedOf t q" and ne: "q \<noteq> []"
  then have f: "textFilter text (visibilityGate catalog route unlocked)
                 = filter (matchesText q) (visibilityGate catalog route unlocked)"
    using textFilter_folded[of "text" t q] by simp
  show "visibleSongs env catalog text route unlocked mode lk
          = sortSongs env mode lk
              (filter (matchesText q) (visibilityGate catalog route unlocked))"
    by (simp only: visibleSongs_def f)
  show "mset (visibleSongs env catalog text route unlocked mode lk)
          = mset (filter (matchesText q) (visibilityGate catalog route unlocked))"
    by (simp only: mset_visibleSongs f)
next
  fix t q
  assume a: "trimmedOf text t \<and> foldedOf t q" and e: "q = []"
  then have f: "textFilter text (visibilityGate catalog route unlocked)
                 = visibilityGate catalog route unlocked"
    using textFilter_folded[of "text" t q] by simp
  show "visibleSongs env catalog text route unlocked mode lk
          = sortSongs env mode lk (visibilityGate catalog route unlocked)"
    by (simp only: visibleSongs_def f)
  show "mset (visibleSongs env catalog text route unlocked mode lk)
          = mset (visibilityGate catalog route unlocked)"
    by (simp only: mset_visibleSongs f)
next
  assume "\<forall>c\<in>set text. of_char c \<in> whiteSpaceCodes"
  then have "trimmedOf text []" by (rule whitespace_text_trims)
  moreover have "foldedOf [] []" by (simp add: foldedOf_def)
  ultimately have f: "textFilter text (visibilityGate catalog route unlocked)
                        = visibilityGate catalog route unlocked"
    using textFilter_folded[of "text" "[]" "[]"] by simp
  show "mset (visibleSongs env catalog text route unlocked mode lk)
          = mset (visibilityGate catalog route unlocked)"
    by (simp only: mset_visibleSongs f)
qed

lemma demoSearch_forms:
  "trim demoSearch = ''UPLIFTING Nostalgic''"
  "toLowerCase ''UPLIFTING Nostalgic'' = ''uplifting nostalgic''"
  "trim ''  ROCK '' = ''ROCK''"
  "toLowerCase ''ROCK'' = ''rock''"
  "trim [CHR 0xA0, CHR 0x09, CHR '' ''] = []"
  "toLowerCase [CHR 0xC9, CHR 0xD7, CHR 0xDF] = [CHR 0xE9, CHR 0xD7, CHR 0xDF]"
  by code_simp+

lemma demo_view_search:
  "visibleSongs demoPlatform demoSongs demoSearch ''/private'' True ''newest'' Map.empty
     = [beGood]"
  "visibleSongs demoPlatform demoSongs ''  ROCK '' ''/private'' True ''newest'' Map.empty
     = [diminished, beGood]"
  by code_simp+

lemma demo_gate_unlocked: "visibilityGate demoSongs ''/private'' True = demoSongs"
  by (simp add: visibilityGate_def)

text \<open>
  On the unlocked private route. A search text with a no-break space and a space in front
  and a tab behind, holding the two moods of the first song in capitals and with one space
  between them, trims and folds to \<open>uplifting nostalgic\<close> and selects that song alone, through
  its moods joined by a space. The search text \<open>ROCK\<close> between spaces selects the two songs
  whose genre holds \<open>Rock\<close>. A search text of white space only selects all three.
\<close>

theorem text_filter_spec_witness:
  "trimmedOf demoSearch ''UPLIFTING Nostalgic'' \<and>
   foldedOf ''UPLIFTING Nostalgic'' ''uplifting nostalgic'' \<and>
   visibleSongs demoPlatform demoSongs demoSearch ''/private'' True ''newest'' Map.empty
     = [beGood] \<and>
   mset (filter (matchesText ''uplifting nostalgic'') demoSongs) = mset [beGood] \<and>
   mset (filter (matchesText ''rock'') demoSongs) = mset [diminished, beGood] \<and>
   mset (visibleSongs demoPlatform demoSongs [CHR 0xA0, CHR 0x09, CHR '' ''] ''/private'' True
           ''newest'' Map.empty)
     = mset demoSongs"
proof -
  note moods = text_filter_spec[of demoSearch demoPlatform demoSongs "''/private''" True
                 "''newest''" Map.empty]
  note rock = text_filter_spec[of "''  ROCK ''" demoPlatform demoSongs "''/private''" True
                 "''newest''" Map.empty]
  note blank = text_filter_spec[of "[CHR 0xA0, CHR 0x09, CHR '' '']" demoPlatform demoSongs
                 "''/private''" True "''newest''" Map.empty]
  have t1: "trimmedOf demoSearch ''UPLIFTING Nostalgic''"
    unfolding trimmedOf_iff by (simp only: demoSearch_forms)
  have f1: "foldedOf ''UPLIFTING Nostalgic'' ''uplifting nostalgic''"
    unfolding foldedOf_iff by (simp only: demoSearch_forms)
  have t2: "trimmedOf ''  ROCK '' ''ROCK''"
    unfolding trimmedOf_iff by (simp only: demoSearch_forms)
  have f2: "foldedOf ''ROCK'' ''rock''"
    unfolding foldedOf_iff by (simp only: demoSearch_forms)
  have ne: "''uplifting nostalgic'' \<noteq> []" "''rock'' \<noteq> []" by simp_all
  from moods t1 f1 ne(1) have
    "mset (visibleSongs demoPlatform demoSongs demoSearch ''/private'' True ''newest'' Map.empty)
       = mset (filter (matchesText ''uplifting nostalgic'')
                 (visibilityGate demoSongs ''/private'' True))"
    by blast
  then have 1: "mset (filter (matchesText ''uplifting nostalgic'') demoSongs) = mset [beGood]"
    by (simp only: demo_view_search demo_gate_unlocked)
  from rock t2 f2 ne(2) have
    "mset (visibleSongs demoPlatform demoSongs ''  ROCK '' ''/private'' True ''newest'' Map.empty)
       = mset (filter (matchesText ''rock'') (visibilityGate demoSongs ''/private'' True))"
    by blast
  then have 2: "mset (filter (matchesText ''rock'') demoSongs) = mset [diminished, beGood]"
    by (simp only: demo_view_search demo_gate_unlocked)
  have ws: "\<forall>c\<in>set [CHR 0xA0, CHR 0x09, CHR '' '']. of_char c \<in> whiteSpaceCodes"
    by (simp add: whiteSpaceCodes_def)
  from blank ws have
    "mset (visibleSongs demoPlatform demoSongs [CHR 0xA0, CHR 0x09, CHR '' ''] ''/private'' True
             ''newest'' Map.empty)
       = mset (visibilityGate demoSongs ''/private'' True)"
    by blast
  then have 3:
    "mset (visibleSongs demoPlatform demoSongs [CHR 0xA0, CHR 0x09, CHR '' ''] ''/private'' True
             ''newest'' Map.empty)
       = mset demoSongs"
    by (simp only: demo_gate_unlocked)
  from t1 f1 1 2 3 demo_view_search(1) show ?thesis by blast
qed


section \<open>Rounding to a double\<close>




section \<open>The three orders\<close>





















text \<open>
  Beyond the safe range the sum of the code loses the bonus, and so does the model: with
  two songs of baseline \<open>2 ^ 53\<close> a like on the second leaves them in their order.
\<close>

lemma bonus_lost_beyond_safe:
  "map songId
     (visibleSongs demoPlatform
        [beGood\<lparr>likes := 9007199254740992\<rparr>, diminished\<lparr>likes := 9007199254740992\<rparr>]
        [] ''/private'' True ''liked'' demoLiked) = [1, 2]"
  by code_simp


end
